theory Spec2Isabelle
  imports Complex_Main "HOL-Library.Multiset" "HOL-Library.Char_ord" "HOL-Library.List_Lexorder"
begin

section \<open>Python values, dictionaries and exceptions\<close>

text \<open>
  The program is dynamically typed: plan elements come out of \<^verbatim>\<open>ast.literal_eval\<close>
  and catalog records out of a JSON response, so both are values of one universe.
  A finite float is represented by the rational it denotes (Python compares an int with
  a float by exact value); the three non-finite floats, which the JSON decoder accepts as
  well, are the values \<open>VSpecial\<close>.
  A dictionary is an association list with string keys whose first binding of a key is
  the entry (the only keys the program ever looks up are string literals).
  Text is ASCII: a \<open>char\<close> is one code point below 128.
\<close>

datatype special = NaN | Infinity | NegInfinity

datatype pyval =
    VNone
  | VBool bool
  | VInt int
  | VFloat rat
  | VSpecial special
  | VStr string
  | VList "pyval list"
  | VDict "(string \<times> pyval) list"

type_synonym pydict = "(string \<times> pyval) list"

datatype error =
    KeyError
  | TypeError
  | AttributeError
  | IndexError
  | ValueError
  | AssertionError
  | SyntaxError
  | RequestError
  | ModelError

text \<open>\<^verbatim>\<open>d.get(k, default)\<close> on a dictionary.\<close>

definition dict_get :: "pydict \<Rightarrow> string \<Rightarrow> pyval \<Rightarrow> pyval" where
  "dict_get d k dflt = (case map_of d k of None \<Rightarrow> dflt | Some v \<Rightarrow> v)"

text \<open>\<^verbatim>\<open>d[k]\<close> on a dictionary: a missing key raises.\<close>

definition dict_item :: "pydict \<Rightarrow> string \<Rightarrow> error + pyval" where
  "dict_item d k = (case map_of d k of None \<Rightarrow> Inl KeyError | Some v \<Rightarrow> Inr v)"

text \<open>\<^verbatim>\<open>v.get(k, default)\<close> on any value: only a dictionary has the method.\<close>

definition py_get :: "pyval \<Rightarrow> string \<Rightarrow> pyval \<Rightarrow> error + pyval" where
  "py_get v k dflt = (case v of VDict d \<Rightarrow> Inr (dict_get d k dflt) | _ \<Rightarrow> Inl AttributeError)"

text \<open>Truth value of a Python object (\<^verbatim>\<open>if not items\<close>).\<close>

fun truthy :: "pyval \<Rightarrow> bool" where
  "truthy VNone = False"
| "truthy (VBool b) = b"
| "truthy (VInt i) = (i \<noteq> 0)"
| "truthy (VFloat r) = (r \<noteq> 0)"
| "truthy (VSpecial x) = True"
| "truthy (VStr s) = (s \<noteq> [])"
| "truthy (VList xs) = (xs \<noteq> [])"
| "truthy (VDict d) = (d \<noteq> [])"

text \<open>\<^verbatim>\<open>xs[i]\<close> on a list: a negative index counts from the end.\<close>

definition list_item :: "'a list \<Rightarrow> int \<Rightarrow> error + 'a" where
  "list_item xs i =
     (if 0 \<le> i \<and> i < int (length xs) then Inr (xs ! nat i)
      else if i < 0 \<and> - int (length xs) \<le> i then Inr (xs ! nat (int (length xs) + i))
      else Inl IndexError)"

text \<open>Monadic map: the first element that raises ends the loop.\<close>

fun mapM :: "('a \<Rightarrow> error + 'b) \<Rightarrow> 'a list \<Rightarrow> error + 'b list" where
  "mapM f [] = Inr []"
| "mapM f (x # xs) =
     (case f x of
        Inl e \<Rightarrow> Inl e
      | Inr y \<Rightarrow> (case mapM f xs of Inl e \<Rightarrow> Inl e | Inr ys \<Rightarrow> Inr (y # ys)))"

section \<open>Strings\<close>

definition lower_char :: "char \<Rightarrow> char" where
  "lower_char c =
     (case map_of (zip ''ABCDEFGHIJKLMNOPQRSTUVWXYZ'' ''abcdefghijklmnopqrstuvwxyz'') c of
        None \<Rightarrow> c
      | Some d \<Rightarrow> d)"

text \<open>\<^verbatim>\<open>s.lower()\<close>.\<close>

definition lower :: "string \<Rightarrow> string" where
  "lower s = map lower_char s"

text \<open>The class \<^verbatim>\<open>\w\<close> on ASCII text: letters, digits and the underscore.\<close>

definition is_word_char :: "char \<Rightarrow> bool" where
  "is_word_char c \<longleftrightarrow>
     c \<in> set ''abcdefghijklmnopqrstuvwxyzABCDEFGHIJKLMNOPQRSTUVWXYZ0123456789_''"

text \<open>The class \<^verbatim>\<open>\s\<close> (and what \<^verbatim>\<open>str.strip()\<close> removes) on ASCII text.\<close>

definition is_space_char :: "char \<Rightarrow> bool" where
  "is_space_char c \<longleftrightarrow>
     c \<in> set [CHR '' '', CHR 0x09, CHR 0x0A, CHR 0x0B, CHR 0x0C, CHR 0x0D,
              CHR 0x1C, CHR 0x1D, CHR 0x1E, CHR 0x1F]"

text \<open>\<^verbatim>\<open>s.strip()\<close>.\<close>

definition strip :: "string \<Rightarrow> string" where
  "strip s = rev (dropWhile is_space_char (rev (dropWhile is_space_char s)))"

fun starts_with :: "string \<Rightarrow> string \<Rightarrow> bool" where
  "starts_with [] s = True"
| "starts_with (p # ps) [] = False"
| "starts_with (p # ps) (c # cs) = (p = c \<and> starts_with ps cs)"

text \<open>\<^verbatim>\<open>p in s\<close> for strings: \<open>p\<close> occurs in \<open>s\<close> as a contiguous substring.\<close>

fun contains :: "string \<Rightarrow> string \<Rightarrow> bool" where
  "contains p [] = (p = [])"
| "contains p (c # cs) = (starts_with p (c # cs) \<or> contains p cs)"

section \<open>Genre Extractor\<close>

text \<open>The table of \<^verbatim>\<open>extract_subject_from_query\<close>, in its insertion order.\<close>

definition subject_keywords :: "(string \<times> string list) list" where
  "subject_keywords =
     [(''science fiction'', [''science fiction'', ''sci-fi'', ''sci fi'']),
      (''fantasy'', [''fantasy'']),
      (''thriller'', [''thriller'', ''suspense'']),
      (''romance'', [''romance'', ''love story'', ''romantic'']),
      (''mystery'', [''mystery'', ''detective'', ''whodunit'']),
      (''non-fiction'', [''non-fiction'', ''nonfiction'', ''real story'']),
      (''history'', [''history'', ''historical'']),
      (''horror'', [''horror'', ''scary'', ''ghost'']),
      (''biography'', [''biography'', ''life of'', ''memoir'']),
      (''self-help'', [''self-help'', ''motivation'', ''inspirational'']),
      (''young adult'', [''young adult'', ''ya'']),
      (''poetry'', [''poetry'', ''poems'']),
      (''philosophy'', [''philosophy'', ''thinking'', ''ethics'']),
      (''comedy'', [''comedy'', ''funny'', ''humor'']),
      (''drama'', [''drama'']),
      (''historical fiction'', [''historical fiction'', ''period drama''])]"

text \<open>\<^verbatim>\<open>re.sub(r'[^\w\s]', '', query.lower())\<close>: every character that is neither a
  word character nor white space is deleted.\<close>

definition clean_query :: "string \<Rightarrow> string" where
  "clean_query query = filter (\<lambda>c. is_word_char c \<or> is_space_char c) (lower query)"

text \<open>The two nested loops return at the first entry one of whose phrases occurs in the
  cleaned query.\<close>

definition extract_subject_from_query :: "string \<Rightarrow> string" where
  "extract_subject_from_query query =
     (let query_clean = clean_query query
      in case find (\<lambda>(subject, keywords). list_ex (\<lambda>phrase. contains phrase query_clean) keywords)
                   subject_keywords of
           Some (subject, keywords) \<Rightarrow> subject
         | None \<Rightarrow> ''fiction'')"

section \<open>Shared state\<close>

text \<open>
  \<^verbatim>\<open>BookState\<close> is a \<^verbatim>\<open>TypedDict\<close> with \<^verbatim>\<open>total=False\<close>: every key may be
  absent, so every field is an option. The field \<^verbatim>\<open>done\<close> is called \<open>is_done\<close> here.
  The element types follow the declaration (\<^verbatim>\<open>List[Dict[str, Any]]\<close> and so on), except
  that the plan is a list of arbitrary values, which is all \<^verbatim>\<open>plan_agent\<close> checks.
\<close>

record BookState =
  user_query :: "string option"
  plan :: "pyval list option"
  current_step :: "int option"
  is_done :: "bool option"
  books :: "pydict list option"
  filtered_books :: "pydict list option"
  top_book :: "pydict option"
  presentation :: "pyval list option"

section \<open>Catalog Client\<close>

text \<open>
  The catalog service is the environment: for the subject filter \<^verbatim>\<open>q\<close> and
  \<^verbatim>\<open>maxResults\<close> of the GET request it gives the decoded JSON body
  (\<^verbatim>\<open>response.json()\<close>), or the exception that \<^verbatim>\<open>requests\<close> raises.
\<close>

type_synonym catalog = "string \<Rightarrow> int \<Rightarrow> error + pyval"

text \<open>The body of the loop of \<^verbatim>\<open>fetch_books\<close>: one upstream item to one book record.\<close>

definition fetch_record :: "pyval \<Rightarrow> error + pydict" where
  "fetch_record book =
     (case py_get book ''volumeInfo'' (VDict []) of
        Inl e \<Rightarrow> Inl e
      | Inr info \<Rightarrow>
        (case py_get book ''searchInfo'' (VDict []) of
           Inl e \<Rightarrow> Inl e
         | Inr search_info \<Rightarrow>
           (case py_get search_info ''textSnippet'' (VStr ''No review snippet found.'') of
              Inl e \<Rightarrow> Inl e
            | Inr snippet \<Rightarrow>
              (case info of
                 VDict i \<Rightarrow>
                   Inr [(''title'', dict_get i ''title'' (VStr ''N/A'')),
                        (''authors'', dict_get i ''authors'' (VList [VStr ''N/A''])),
                        (''description'', dict_get i ''description'' (VStr ''No summary found.'')),
                        (''averageRating'', dict_get i ''averageRating'' (VInt 0)),
                        (''ratingsCount'', dict_get i ''ratingsCount'' (VInt 0)),
                        (''publishedDate'', dict_get i ''publishedDate'' (VStr [])),
                        (''categories'', dict_get i ''categories'' (VList [])),
                        (''snippet'', snippet),
                        (''infoLink'', dict_get i ''infoLink'' (VStr []))]
               | _ \<Rightarrow> Inl AttributeError))))"

text \<open>
  \<^verbatim>\<open>fetch_books\<close>. A truthy \<^verbatim>\<open>items\<close> that is not a list is iterated as Python
  does: a string yields one-character strings and a dictionary its keys, on which
  \<^verbatim>\<open>.get\<close> raises \<^verbatim>\<open>AttributeError\<close>; a number is not iterable.
\<close>

definition fetch_books :: "catalog \<Rightarrow> string \<Rightarrow> int \<Rightarrow> error + pydict list" where
  "fetch_books cat subject max_results =
     (case cat (''subject:'' @ subject) max_results of
        Inl e \<Rightarrow> Inl e
      | Inr data \<Rightarrow>
        (case py_get data ''items'' (VList []) of
           Inl e \<Rightarrow> Inl e
         | Inr items \<Rightarrow>
             if \<not> truthy items then Inr []
             else (case items of
                     VList xs \<Rightarrow> mapM fetch_record xs
                   | VStr s \<Rightarrow> Inl AttributeError
                   | VDict d \<Rightarrow> Inl AttributeError
                   | _ \<Rightarrow> Inl TypeError)))"

section \<open>Plan Generator\<close>

text \<open>
  The language model is the environment: \<^verbatim>\<open>llm1.invoke(prompt).content\<close> for a prompt,
  or the exception the call raises. \<^verbatim>\<open>ast.literal_eval\<close> is the standard library's and
  is a parameter of \<^verbatim>\<open>plan_agent\<close> here.
\<close>

type_synonym llm = "string \<Rightarrow> error + string"

definition plan_prompt :: "string \<Rightarrow> string" where
  "plan_prompt query =
     ''You are an AI workflow planner.'' @ [CHR 0x0A] @
     ''Given a user's request, break it down into an ordered list of steps.'' @ [CHR 0x0A] @
     ''Each step should be a dictionary with a single 'task' key, and only include extra keys if absolutely required for that specific step.'' @ [CHR 0x0A] @
     ''Do NOT add redundant references (like 'book': 'found_book') if there's clearly only one book or one main object in the workflow.'' @ [CHR 0x0A] @
     ''Example:'' @ [CHR 0x0A] @
     ''['' @ [CHR 0x0A] @
     ''  {'task': 'Query a book database or API for science fiction books.'},'' @ [CHR 0x0A] @
     ''  {'task': 'Filter the results to identify books with high ratings.'},'' @ [CHR 0x0A] @
     ''  {'task': 'Present the book with the highest overall score based on the ranking criteria as the suggested best science fiction book.'}'' @ [CHR 0x0A] @
     '']'' @ [CHR 0x0A] @
     ''Output your response strictly as a Python list of dictionaries.'' @ [CHR 0x0A] @
     ''User request: '' @ [CHR 0x22] @ query @ [CHR 0x22, CHR 0x0A] @
     ''Tasks:''"

text \<open>
  \<^verbatim>\<open>re.search(r'\[.*\]', plan_str, re.DOTALL)\<close>: the leftmost match starts at the first
  \<^verbatim>\<open>[\<close>, and the greedy \<^verbatim>\<open>.*\<close> (which crosses line ends) runs to the last
  \<^verbatim>\<open>]\<close> behind it; there is no match when no \<^verbatim>\<open>]\<close> follows the first \<^verbatim>\<open>[\<close>.
\<close>

definition bracket_match :: "string \<Rightarrow> string option" where
  "bracket_match s =
     (case dropWhile (\<lambda>c. c \<noteq> CHR ''['') s of
        [] \<Rightarrow> None
      | b # rest \<Rightarrow>
          (case dropWhile (\<lambda>c. c \<noteq> CHR '']'') (rev rest) of
             [] \<Rightarrow> None
           | r \<Rightarrow> Some (b # rev r)))"

text \<open>The text handed to \<^verbatim>\<open>ast.literal_eval\<close>: the match, or the whole stripped reply.\<close>

definition plan_text :: "string \<Rightarrow> string" where
  "plan_text content =
     (let plan_str = strip content
      in case bracket_match plan_str of Some m \<Rightarrow> m | None \<Rightarrow> plan_str)"

text \<open>\<^verbatim>\<open>plan_agent\<close>, with assertions enabled (the interpreter's default): a value that
  is not a list fails the \<^verbatim>\<open>isinstance\<close> assertion, and every exception is re-raised.\<close>

definition plan_agent :: "llm option \<Rightarrow> (string \<Rightarrow> error + pyval) \<Rightarrow> string \<Rightarrow> error + pyval list" where
  "plan_agent llm1 literal_eval query =
     (case llm1 of
        None \<Rightarrow> Inl ValueError
      | Some model \<Rightarrow>
        (case model (plan_prompt query) of
           Inl e \<Rightarrow> Inl e
         | Inr content \<Rightarrow>
           (case literal_eval (plan_text content) of
              Inl e \<Rightarrow> Inl e
            | Inr v \<Rightarrow> (case v of VList p \<Rightarrow> Inr p | _ \<Rightarrow> Inl AssertionError))))"

definition plan_node :: "llm option \<Rightarrow> (string \<Rightarrow> error + pyval) \<Rightarrow> BookState \<Rightarrow> error + BookState" where
  "plan_node llm1 literal_eval state =
     (case plan_agent llm1 literal_eval (case user_query state of None \<Rightarrow> [] | Some q \<Rightarrow> q) of
        Inl e \<Rightarrow> Inl e
      | Inr p \<Rightarrow> Inr (state\<lparr>plan := Some p, current_step := Some 0, is_done := Some False\<rparr>))"

section \<open>Step Dispatcher\<close>

text \<open>\<^verbatim>\<open>task_dict["task"].lower()\<close>: subscripting a value that is not a dictionary with a
  string raises \<^verbatim>\<open>TypeError\<close>, a missing key \<^verbatim>\<open>KeyError\<close>, and only a string has
  \<^verbatim>\<open>lower\<close>.\<close>

definition task_lower :: "pyval \<Rightarrow> error + string" where
  "task_lower task_dict =
     (case task_dict of
        VDict d \<Rightarrow>
          (case dict_item d ''task'' of
             Inl e \<Rightarrow> Inl e
           | Inr v \<Rightarrow> (case v of VStr t \<Rightarrow> Inr (lower t) | _ \<Rightarrow> Inl AttributeError))
      | _ \<Rightarrow> Inl TypeError)"

text \<open>The projection stored by the fetch branch.\<close>

definition rated_projection :: "pydict \<Rightarrow> error + pydict" where
  "rated_projection b =
     (case dict_item b ''title'' of
        Inl e \<Rightarrow> Inl e
      | Inr t \<Rightarrow>
        (case dict_item b ''authors'' of
           Inl e \<Rightarrow> Inl e
         | Inr a \<Rightarrow>
             Inr [(''title'', t), (''authors'', a),
                  (''averageRating'', dict_get b ''averageRating'' (VInt 0))]))"

text \<open>The projection stored by the filter branch.\<close>

definition plain_projection :: "pydict \<Rightarrow> error + pydict" where
  "plain_projection b =
     (case dict_item b ''title'' of
        Inl e \<Rightarrow> Inl e
      | Inr t \<Rightarrow>
        (case dict_item b ''authors'' of
           Inl e \<Rightarrow> Inl e
         | Inr a \<Rightarrow> Inr [(''title'', t), (''authors'', a)]))"

text \<open>The sort key \<^verbatim>\<open>b.get("averageRating", 0)\<close>.\<close>

definition rating_key :: "pydict \<Rightarrow> pyval" where
  "rating_key b = dict_get b ''averageRating'' (VInt 0)"

text \<open>The number a key denotes when it is an int, a bool (a subtype of \<^verbatim>\<open>int\<close>) or a
  finite float.\<close>

fun num_of :: "pyval \<Rightarrow> rat option" where
  "num_of (VInt i) = Some (of_int i)"
| "num_of (VFloat r) = Some r"
| "num_of (VBool b) = Some (if b then 1 else 0)"
| "num_of _ = None"

fun str_of :: "pyval \<Rightarrow> string option" where
  "str_of (VStr s) = Some s"
| "str_of _ = None"

text \<open>How \<^verbatim>\<open><\<close> treats a key: numbers (the non-finite floats among them) compare with
  numbers, strings with strings and lists with lists; \<^verbatim>\<open>None\<close> and dictionaries
  compare with nothing, not even with their like; and across kinds \<^verbatim>\<open><\<close> raises
  \<^verbatim>\<open>TypeError\<close>.\<close>

datatype key_kind = KNumber | KText | KSequence | KUnordered

fun kind_of :: "pyval \<Rightarrow> key_kind" where
  "kind_of (VInt i) = KNumber"
| "kind_of (VFloat r) = KNumber"
| "kind_of (VBool b) = KNumber"
| "kind_of (VSpecial x) = KNumber"
| "kind_of (VStr s) = KText"
| "kind_of (VList xs) = KSequence"
| "kind_of VNone = KUnordered"
| "kind_of (VDict d) = KUnordered"

text \<open>
  \<^verbatim>\<open>sorted(books, key=..., reverse=True)\<close> is the standard library's. What it does is
  fixed by its documentation where \<^verbatim>\<open><\<close> orders the keys totally, and those cases are
  computed here: CPython reverses the list, sorts it ascending with a stable sort and
  reverses the result, which keeps equal keys in their original order (\<open>sort_key\<close> is
  the stable ascending sort), for keys that are all ints, bools and finite floats and
  for keys that are all strings. A list of fewer than two books is returned without a
  comparison. With two or more books every key is compared at least once, so a key that
  is \<^verbatim>\<open>None\<close> or a dictionary, or keys of two kinds, raise \<^verbatim>\<open>TypeError\<close>. What
  is left (two or more keys that are all numbers with a non-finite float among them, or
  all lists, whose comparison may itself raise) depends on the comparisons the sort
  happens to make; there the result is that of the parameter \<open>builtin\<close>, which stands for
  the library function and of which nothing is assumed.
\<close>

type_synonym sorter = "pydict list \<Rightarrow> error + pydict list"

definition sorted_by_rating :: "sorter \<Rightarrow> pydict list \<Rightarrow> error + pydict list" where
  "sorted_by_rating builtin bs =
     (if list_all (\<lambda>b. num_of (rating_key b) \<noteq> None) bs
      then Inr (rev (sort_key (\<lambda>b. the (num_of (rating_key b))) (rev bs)))
      else if list_all (\<lambda>b. str_of (rating_key b) \<noteq> None) bs
      then Inr (rev (sort_key (\<lambda>b. the (str_of (rating_key b))) (rev bs)))
      else if length bs \<le> 1 then Inr bs
      else if list_ex (\<lambda>b. kind_of (rating_key b) = KUnordered) bs \<or>
              \<not> list_all (\<lambda>b. kind_of (rating_key b) = kind_of (rating_key (hd bs))) bs
      then Inl TypeError
      else builtin bs)"

text \<open>The three branches of \<^verbatim>\<open>dynamic_tool_agent\<close>, each returning the result of
  the call paired with the updated state.\<close>

definition fetch_branch :: "catalog \<Rightarrow> string \<Rightarrow> BookState \<Rightarrow> error + pyval \<times> BookState" where
  "fetch_branch cat subject state =
     (case fetch_books cat subject 10 of
        Inl e \<Rightarrow> Inl e
      | Inr fetched \<Rightarrow>
        (case mapM rated_projection fetched of
           Inl e \<Rightarrow> Inl e
         | Inr ps \<Rightarrow> Inr (VList (map VDict fetched), state\<lparr>books := Some ps\<rparr>)))"

definition filter_branch :: "sorter \<Rightarrow> BookState \<Rightarrow> error + pyval \<times> BookState" where
  "filter_branch builtin state =
     (case sorted_by_rating builtin (case books state of None \<Rightarrow> [] | Some bs \<Rightarrow> bs) of
        Inl e \<Rightarrow> Inl e
      | Inr filtered \<Rightarrow>
        (case mapM plain_projection filtered of
           Inl e \<Rightarrow> Inl e
         | Inr ps \<Rightarrow> Inr (VList (map VDict filtered), state\<lparr>filtered_books := Some ps\<rparr>)))"

definition present_branch :: "BookState \<Rightarrow> error + pyval \<times> BookState" where
  "present_branch state =
     (let filtered = (case filtered_books state of None \<Rightarrow> [] | Some fs \<Rightarrow> fs)
      in case (if filtered \<noteq> [] then mapM (\<lambda>b. dict_item b ''title'') (take 5 filtered)
               else Inr []) of
           Inl e \<Rightarrow> Inl e
         | Inr titles \<Rightarrow>
             Inr (VList titles,
                  state\<lparr>presentation := Some titles,
                        top_book := Some (case filtered of [] \<Rightarrow> [] | b # _ \<Rightarrow> b)\<rparr>))"

definition dynamic_tool_agent :: "sorter \<Rightarrow> catalog \<Rightarrow> pyval \<Rightarrow> BookState \<Rightarrow> error + pyval \<times> BookState" where
  "dynamic_tool_agent builtin cat task_dict state =
     (case task_lower task_dict of
        Inl e \<Rightarrow> Inl e
      | Inr task \<Rightarrow>
          (let subject = extract_subject_from_query
                           (case user_query state of None \<Rightarrow> [] | Some q \<Rightarrow> q)
           in if contains ''query'' task \<or> contains ''search'' task \<or> contains ''find books'' task
              then fetch_branch cat subject state
              else if contains ''filter'' task \<or> contains ''rating'' task \<or> contains ''top rated'' task
              then filter_branch builtin state
              else if contains ''present'' task \<or> contains ''suggest'' task \<or> contains ''recommend'' task
              then present_branch state
              else Inr (VNone, state)))"

section \<open>Plan Runner\<close>

text \<open>
  \<^verbatim>\<open>tool_node\<close>, with one piece of instrumentation: the first component of the result
  counts the calls of \<^verbatim>\<open>dynamic_tool_agent\<close> this invocation made (none or one), also
  when the call raised.
\<close>

definition tool_node :: "sorter \<Rightarrow> catalog \<Rightarrow> BookState \<Rightarrow> nat \<times> (error + BookState)" where
  "tool_node builtin cat state =
     (case plan state of
        None \<Rightarrow> (0, Inl KeyError)
      | Some p \<Rightarrow>
        (case current_step state of
           None \<Rightarrow> (0, Inl KeyError)
         | Some i \<Rightarrow>
             if i \<ge> int (length p) then (0, Inr (state\<lparr>is_done := Some True\<rparr>))
             else (case list_item p i of
                     Inl e \<Rightarrow> (0, Inl e)
                   | Inr task \<Rightarrow>
                       (1, case dynamic_tool_agent builtin cat task state of
                             Inl e \<Rightarrow> Inl e
                           | Inr (r, updated_state) \<Rightarrow>
                               Inr (updated_state\<lparr>current_step := Some (i + 1),
                                                  is_done := Some (i + 1 \<ge> int (length p))\<rparr>)))))"

text \<open>The distance of a state from the end of its plan.\<close>

definition steps_left :: "BookState \<Rightarrow> nat" where
  "steps_left state =
     (case plan state of
        None \<Rightarrow> 0
      | Some p \<Rightarrow> (case current_step state of None \<Rightarrow> 0 | Some i \<Rightarrow> nat (int (length p) - i)))"

text \<open>
  The graph's loop on the executor node: the conditional edge leaves for \<^verbatim>\<open>END\<close> when
  \<^verbatim>\<open>s.get("done")\<close> is true and comes back to the executor otherwise. The result is the
  number of dispatcher calls, the states the executor returned in order, and the final
  state or the exception that ended the run. (The graph library's own bound on the
  number of node executions is not part of this program and is not modelled.)
\<close>

function executor_loop :: "sorter \<Rightarrow> catalog \<Rightarrow> BookState \<Rightarrow> nat \<times> BookState list \<times> (error + BookState)" where
  "executor_loop builtin cat state =
     (case tool_node builtin cat state of
        (n, Inl e) \<Rightarrow> (n, [], Inl e)
      | (n, Inr s) \<Rightarrow>
          if is_done s = Some True then (n, [s], Inr s)
          else (case executor_loop builtin cat s of (m, tr, out) \<Rightarrow> (n + m, s # tr, out)))"
  by pat_completeness auto

text \<open>\<^verbatim>\<open>app.invoke\<close>: the planner node, then the executor loop.\<close>

definition invoke :: "llm option \<Rightarrow> (string \<Rightarrow> error + pyval) \<Rightarrow> sorter \<Rightarrow> catalog \<Rightarrow> BookState
                      \<Rightarrow> nat \<times> BookState list \<times> (error + BookState)" where
  "invoke llm1 literal_eval builtin cat initial_state =
     (case plan_node llm1 literal_eval initial_state of
        Inl e \<Rightarrow> (0, [], Inl e)
      | Inr s \<Rightarrow> executor_loop builtin cat s)"

section \<open>UI shell\<close>

text \<open>What the output panel of \<^verbatim>\<open>app1.py\<close> shows for a final state: the presentation
  when the key is there, the warning "No recommendations found." otherwise.\<close>

datatype panel = Shows "pyval list" | No_recommendations

definition output_panel :: "BookState \<Rightarrow> panel" where
  "output_panel final_state =
     (case presentation final_state of Some p \<Rightarrow> Shows p | None \<Rightarrow> No_recommendations)"

text \<open>The state the UI shell starts a run from: \<^verbatim>\<open>{"user_query": user_query}\<close>.\<close>

definition initial_state :: "string \<Rightarrow> BookState" where
  "initial_state query =
     \<lparr>user_query = Some query, plan = None, current_step = None, is_done = None,
      books = None, filtered_books = None, top_book = None, presentation = None\<rparr>"

section \<open>Concrete environments\<close>

text \<open>A stand-in for the part of \<^verbatim>\<open>sorted\<close> that \<open>sorted_by_rating\<close> leaves to its
  parameter (no example below reaches it), a catalog that answers every request with the
  same JSON body, a model that answers every prompt with the same reply, and
  \<^verbatim>\<open>ast.literal_eval\<close> cut down to a finite table of texts (every other text is a
  syntax error).\<close>

definition no_sorter :: sorter where
  "no_sorter bs = Inl TypeError"

definition catalog_of :: "pyval \<Rightarrow> catalog" where
  "catalog_of body = (\<lambda>q max_results. Inr body)"

definition llm_of :: "string \<Rightarrow> llm option" where
  "llm_of reply = Some (\<lambda>prompt. Inr reply)"

definition literal_table :: "(string \<times> pyval) list \<Rightarrow> string \<Rightarrow> error + pyval" where
  "literal_table tbl text = (case map_of tbl text of None \<Rightarrow> Inl SyntaxError | Some v \<Rightarrow> Inr v)"

text \<open>The state a successful call returned, if any.\<close>

definition state_after :: "error + pyval \<times> BookState \<Rightarrow> BookState option" where
  "state_after res = (case res of Inl e \<Rightarrow> None | Inr (r, s) \<Rightarrow> Some s)"

text \<open>The final state of a run that did not raise.\<close>

definition final_state :: "nat \<times> BookState list \<times> (error + BookState) \<Rightarrow> BookState option" where
  "final_state run = (case run of (n, tr, Inl e) \<Rightarrow> None | (n, tr, Inr s) \<Rightarrow> Some s)"

section \<open>Well-formed records\<close>

text \<open>The shape the data model gives to stored records: a fetched book carries a title,
  authors and a numeric rating (or none, read as 0); a filtered book among the first five
  carries a title.\<close>

definition has_title_authors :: "pydict \<Rightarrow> bool" where
  "has_title_authors b \<longleftrightarrow> map_of b ''title'' \<noteq> None \<and> map_of b ''authors'' \<noteq> None"

definition numeric_rating :: "pydict \<Rightarrow> bool" where
  "numeric_rating b \<longleftrightarrow> num_of (rating_key b) \<noteq> None"

definition rating :: "pydict \<Rightarrow> rat" where
  "rating b = (case num_of (rating_key b) of None \<Rightarrow> 0 | Some r \<Rightarrow> r)"

definition stored_books :: "BookState \<Rightarrow> pydict list" where
  "stored_books state = (case books state of None \<Rightarrow> [] | Some bs \<Rightarrow> bs)"

definition stored_filtered :: "BookState \<Rightarrow> pydict list" where
  "stored_filtered state = (case filtered_books state of None \<Rightarrow> [] | Some fs \<Rightarrow> fs)"

definition records_ok :: "BookState \<Rightarrow> bool" where
  "records_ok state \<longleftrightarrow>
     list_all (\<lambda>b. has_title_authors b \<and> numeric_rating b) (stored_books state) \<and>
     list_all (\<lambda>b. map_of b ''title'' \<noteq> None) (take 5 (stored_filtered state))"

text \<open>Every stored book and every stored filtered book carries a title and authors.\<close>

definition titled :: "BookState \<Rightarrow> bool" where
  "titled state \<longleftrightarrow>
     list_all has_title_authors (stored_books state) \<and>
     list_all has_title_authors (stored_filtered state)"

text \<open>The two-field entry the specification describes for a filtered book.\<close>

definition title_authors :: "pydict \<Rightarrow> pydict" where
  "title_authors b =
     [(''title'', dict_get b ''title'' VNone), (''authors'', dict_get b ''authors'' VNone)]"

text \<open>The stable descending sort as the specification words it: the ascending stable
  sort of the reversed list, reversed.\<close>

definition stable_descending :: "pydict list \<Rightarrow> pydict list" where
  "stable_descending bs = rev (sort_key rating (rev bs))"

text \<open>The subject the dispatcher derives from the state's request.\<close>

definition subject_of :: "BookState \<Rightarrow> string" where
  "subject_of state =
     extract_subject_from_query (case user_query state of None \<Rightarrow> [] | Some q \<Rightarrow> q)"

text \<open>An upstream item the loop of \<^verbatim>\<open>fetch_books\<close> accepts: a JSON object whose
  \<^verbatim>\<open>volumeInfo\<close> and \<^verbatim>\<open>searchInfo\<close>, when present, are objects.\<close>

fun is_dict :: "pyval \<Rightarrow> bool" where
  "is_dict (VDict d) = True"
| "is_dict _ = False"

definition item_ok :: "pyval \<Rightarrow> bool" where
  "item_ok item =
     (case item of
        VDict d \<Rightarrow> is_dict (dict_get d ''volumeInfo'' (VDict [])) \<and>
                   is_dict (dict_get d ''searchInfo'' (VDict []))
      | _ \<Rightarrow> False)"

text \<open>The items of a well-formed response body: the list under \<^verbatim>\<open>items\<close>, empty when
  the key is missing or its value is falsy.\<close>

definition response_items :: "pyval \<Rightarrow> pyval list option" where
  "response_items body =
     (case body of
        VDict d \<Rightarrow>
          (case dict_get d ''items'' (VList []) of
             VList xs \<Rightarrow> if list_all item_ok xs then Some xs else None
           | v \<Rightarrow> if truthy v then None else Some [])
      | _ \<Rightarrow> None)"

text \<open>The \<^verbatim>\<open>volumeInfo\<close> object of an item, empty when missing.\<close>

definition volume_info :: "pyval \<Rightarrow> pydict" where
  "volume_info item =
     (case item of
        VDict d \<Rightarrow> (case dict_get d ''volumeInfo'' (VDict []) of VDict i \<Rightarrow> i | _ \<Rightarrow> [])
      | _ \<Rightarrow> [])"

text \<open>The three-field entry the specification describes for an upstream item.\<close>

definition spec_entry :: "pyval \<Rightarrow> pydict" where
  "spec_entry item =
     [(''title'', dict_get (volume_info item) ''title'' (VStr ''N/A'')),
      (''authors'', dict_get (volume_info item) ''authors'' (VList [VStr ''N/A''])),
      (''averageRating'', dict_get (volume_info item) ''averageRating'' (VInt 0))]"

text \<open>The step index of a state, for comparing the states of a run.\<close>

definition step_index :: "BookState \<Rightarrow> int" where
  "step_index state = (case current_step state of None \<Rightarrow> 0 | Some j \<Rightarrow> j)"

text \<open>A stored book with a title, no authors and an integer rating, for examples.\<close>

definition example_book :: "string \<Rightarrow> int \<Rightarrow> pydict" where
  "example_book name r = [(''title'', VStr name), (''authors'', VList []), (''averageRating'', VInt r)]"

text \<open>The books of the specification's FILTER example, stored in a fresh state, and a
  state holding six filtered books.\<close>

definition rated_state :: BookState where
  "rated_state =
     (initial_state ''a good book'')
       \<lparr>books := Some [example_book ''A'' 4, example_book ''B'' 5, example_book ''C'' 4]\<rparr>"

definition six_filtered_state :: BookState where
  "six_filtered_state =
     (initial_state ''a good book'')
       \<lparr>filtered_books :=
          Some (map title_authors
                  [example_book ''P'' 5, example_book ''Q'' 5, example_book ''R'' 4,
                   example_book ''S'' 3, example_book ''T'' 2, example_book ''U'' 1])\<rparr>"

text \<open>Two response bodies: one of eleven bare items, and one of two items of which the
  second has no \<^verbatim>\<open>volumeInfo\<close>.\<close>

definition eleven_items :: pyval where
  "eleven_items = VDict [(''items'', VList (replicate 11 (VDict [])))]"

definition two_items :: "pyval list" where
  "two_items =
     [VDict [(''volumeInfo'',
              VDict [(''title'', VStr ''Dune''), (''authors'', VList [VStr ''Frank Herbert'']),
                     (''averageRating'', VFloat (9 / 2))])],
      VDict [(''id'', VStr ''x1'')]]"

definition two_item_body :: pyval where
  "two_item_body = VDict [(''kind'', VStr ''books#volumes''), (''items'', VList two_items)]"

text \<open>The catalog answers the FETCH request for a subject with a well-formed response.\<close>

definition catalog_answers :: "catalog \<Rightarrow> string \<Rightarrow> bool" where
  "catalog_answers cat subject \<longleftrightarrow>
     (case cat (''subject:'' @ subject) 10 of
        Inl e \<Rightarrow> False
      | Inr body \<Rightarrow> response_items body \<noteq> None)"

text \<open>The ratings of the items of a response are ints, bools or finite floats, or
  missing.\<close>

definition numeric_items :: "pyval list \<Rightarrow> bool" where
  "numeric_items items \<longleftrightarrow>
     list_all (\<lambda>item. num_of (dict_get (volume_info item) ''averageRating'' (VInt 0)) \<noteq> None) items"

text \<open>A response whose only item has \<^verbatim>\<open>null\<close> for \<^verbatim>\<open>volumeInfo\<close>; a response of two
  items of which the first has \<^verbatim>\<open>null\<close> for its rating; and a state storing the two
  books FETCH makes of the latter.\<close>

definition bad_body :: pyval where
  "bad_body = VDict [(''items'', VList [VDict [(''volumeInfo'', VNone)]])]"

definition null_rating_body :: pyval where
  "null_rating_body =
     VDict [(''items'',
             VList [VDict [(''volumeInfo'',
                            VDict [(''title'', VStr ''A''), (''averageRating'', VNone)])],
                    VDict [(''volumeInfo'',
                            VDict [(''title'', VStr ''B''), (''averageRating'', VInt 4)])]])]"

definition null_rated_state :: BookState where
  "null_rated_state =
     (initial_state ''a good book'')
       \<lparr>books := Some [[(''title'', VStr ''A''), (''authors'', VList [VStr ''N/A'']),
                        (''averageRating'', VNone)],
                       [(''title'', VStr ''B''), (''authors'', VList [VStr ''N/A'']),
                        (''averageRating'', VInt 4)]]\<rparr>"

text \<open>What \<^verbatim>\<open>plan_agent\<close> does with the text it extracted: deserialize it and check that
  the value is a list.\<close>

definition deserialize_list :: "(string \<Rightarrow> error + pyval) \<Rightarrow> string \<Rightarrow> error + pyval list" where
  "deserialize_list literal_eval text =
     (case literal_eval text of
        Inl e \<Rightarrow> Inl e
      | Inr v \<Rightarrow> (case v of VList p \<Rightarrow> Inr p | _ \<Rightarrow> Inl AssertionError))"

text \<open>A property of \<^verbatim>\<open>ast.literal_eval\<close>: a text that evaluates to a list holds a list
  display, so an opening bracket with a closing bracket behind it.\<close>

definition lists_in_brackets :: "(string \<Rightarrow> error + pyval) \<Rightarrow> bool" where
  "lists_in_brackets literal_eval \<longleftrightarrow>
     (\<forall>text p. literal_eval text = Inr (VList p) \<longrightarrow> bracket_match text \<noteq> None)"

text \<open>The first bracketed-list substring as claim C8 words it: from the first opening
  bracket to the first closing bracket behind it.\<close>

definition spec_first_bracketed :: "string \<Rightarrow> string option" where
  "spec_first_bracketed s =
     (case dropWhile (\<lambda>c. c \<noteq> CHR ''['') s of
        [] \<Rightarrow> None
      | b # rest \<Rightarrow>
          (if CHR '']'' \<in> set rest then Some (b # takeWhile (\<lambda>c. c \<noteq> CHR '']'') rest @ '']'')
           else None))"

text \<open>A reply with commentary behind the list, a reply without a list, and the two
  texts at which the literal evaluator is consulted in the examples.\<close>

definition commented_reply :: string where
  "commented_reply = ''[{'task': 'Find books'}] Note: run step [1] first.''"

definition refusal_reply :: string where
  "refusal_reply = ''I cannot help with that.''"

definition find_books_table :: "(string \<times> pyval) list" where
  "find_books_table = [(''[{'task': 'Find books'}]'', VList [VDict [(''task'', VStr ''Find books'')]])]"

text \<open>The three components of a run's result.\<close>

definition dispatches :: "nat \<times> BookState list \<times> (error + BookState) \<Rightarrow> nat" where
  "dispatches run = fst run"

definition trace :: "nat \<times> BookState list \<times> (error + BookState) \<Rightarrow> BookState list" where
  "trace run = fst (snd run)"

definition outcome :: "nat \<times> BookState list \<times> (error + BookState) \<Rightarrow> error + BookState" where
  "outcome run = snd (snd run)"

text \<open>What a run from a state at step \<open>i\<close> of the plan \<open>p\<close> must look like: at most the
  remaining number of dispatcher calls; either an exception out of a call, or a final
  state that is done at step \<open>length p\<close> after exactly the remaining number of calls;
  every state the executor returned keeps the plan, has a step between \<open>i\<close> and
  \<open>length p\<close> and is done exactly at \<open>length p\<close>; the steps never decrease; and no
  state before the last is done.\<close>

definition run_from :: "pyval list \<Rightarrow> int \<Rightarrow> BookState \<Rightarrow> nat \<times> BookState list \<times> (error + BookState) \<Rightarrow> bool" where
  "run_from p i state run \<longleftrightarrow>
     int (dispatches run) \<le> int (length p) - i \<and>
     (case outcome run of
        Inl e \<Rightarrow> 1 \<le> dispatches run
      | Inr sf \<Rightarrow> int (dispatches run) = int (length p) - i \<and> trace run \<noteq> [] \<and>
                 last (trace run) = sf \<and> is_done sf = Some True \<and>
                 current_step sf = Some (int (length p))) \<and>
     list_all (\<lambda>st. plan st = Some p \<and>
                     (case current_step st of
                        None \<Rightarrow> False
                      | Some j \<Rightarrow> i \<le> j \<and> j \<le> int (length p) \<and>
                                  is_done st = Some (j = int (length p))))
              (trace run) \<and>
     sorted (map step_index (state # trace run)) \<and>
     list_all (\<lambda>st. is_done st \<noteq> Some True) (butlast (trace run))"

text \<open>When a run from a state at step \<open>i\<close> of the plan \<open>p\<close> ends with an exception, the
  exception is the one the last dispatcher call raised: the call on the plan's element
  at the step of the last state the run reached.\<close>

definition raised_by :: "sorter \<Rightarrow> catalog \<Rightarrow> pyval list \<Rightarrow> int \<Rightarrow> BookState
                         \<Rightarrow> nat \<times> BookState list \<times> (error + BookState) \<Rightarrow> bool" where
  "raised_by builtin cat p i state run \<longleftrightarrow>
     (case outcome run of
        Inr sf \<Rightarrow> True
      | Inl e \<Rightarrow>
          dispatches run = length (trace run) + 1 \<and>
          dynamic_tool_agent builtin cat (p ! nat (i + int (length (trace run))))
            (last (state # trace run)) = Inl e)"

text \<open>A catalog whose every request fails, the response for an empty result set, and a
  model reply with the three steps of the prompt's example, with the plan it denotes.\<close>

definition failing_catalog :: catalog where
  "failing_catalog = (\<lambda>q max_results. Inl RequestError)"

definition empty_body :: pyval where
  "empty_body = VDict [(''kind'', VStr ''books#volumes''), (''totalItems'', VInt 0)]"

definition three_step_reply :: string where
  "three_step_reply =
     ''[{'task': 'Query a book database for science fiction books.'}, '' @
     ''{'task': 'Filter the results to identify books with high ratings.'}, '' @
     ''{'task': 'Present the best book as the suggestion.'}]''"

definition three_step_plan :: "pyval list" where
  "three_step_plan =
     [VDict [(''task'', VStr ''Query a book database for science fiction books.'')],
      VDict [(''task'', VStr ''Filter the results to identify books with high ratings.'')],
      VDict [(''task'', VStr ''Present the best book as the suggestion.'')]]"

definition three_step_table :: "(string \<times> pyval) list" where
  "three_step_table = [(three_step_reply, VList three_step_plan)]"

definition plan_tables :: "(string \<times> pyval) list" where
  "plan_tables =
     [(''['Find books']'', VList [VStr ''Find books'']),
      (''[{'task': 'Find books'}]'', VList [VDict [(''task'', VStr ''Find books'')]]),
      (''[]'', VList [])]"

section \<open>The specification's classification of a step\<close>

text \<open>The step kinds and the priority order as section 4.4 of the specification words
  them; \<open>spec_classify\<close> is compared with the source's chain of tests below.\<close>

datatype step_kind = FETCH | FILTER | PRESENT | NOOP

definition spec_classify :: "string \<Rightarrow> step_kind" where
  "spec_classify task =
     (if list_ex (\<lambda>k. contains k task) [''query'', ''search'', ''find books''] then FETCH
      else if list_ex (\<lambda>k. contains k task) [''filter'', ''rating'', ''top rated''] then FILTER
      else if list_ex (\<lambda>k. contains k task) [''present'', ''suggest'', ''recommend''] then PRESENT
      else NOOP)"

section \<open>Termination of the executor loop\<close>

text \<open>No branch of the dispatcher touches the plan, so every invocation of the executor
  that does not end the run moves one step closer to the end of the plan.\<close>

lemma fetch_branch_plan:
  "fetch_branch cat subject state = Inr (r, s) \<Longrightarrow> plan s = plan state"
  by (auto simp: fetch_branch_def split: sum.splits)

lemma filter_branch_plan:
  "filter_branch builtin state = Inr (r, s) \<Longrightarrow> plan s = plan state"
  by (auto simp: filter_branch_def split: sum.splits)

lemma present_branch_plan:
  "present_branch state = Inr (r, s) \<Longrightarrow> plan s = plan state"
  by (auto simp: present_branch_def Let_def split: sum.splits)

lemma dynamic_tool_agent_plan:
  "dynamic_tool_agent builtin cat task_dict state = Inr (r, s) \<Longrightarrow> plan s = plan state"
  by (auto simp: dynamic_tool_agent_def Let_def
           dest: fetch_branch_plan filter_branch_plan present_branch_plan
           split: sum.splits if_splits)

lemma tool_node_steps_left:
  assumes "tool_node builtin cat state = (n, Inr s)" and "is_done s \<noteq> Some True"
  shows "steps_left s < steps_left state"
  using assms
  by (auto simp: tool_node_def steps_left_def
           dest!: dynamic_tool_agent_plan
           split: option.splits if_splits sum.splits prod.splits)

termination executor_loop
  by (relation "measure (\<lambda>(builtin, cat, state). steps_left state)")
     (auto dest: tool_node_steps_left [OF sym])

declare executor_loop.simps [simp del]

section \<open>Genre Extractor: the hyphenated phrases\<close>

lemma starts_with_set: "starts_with p s \<Longrightarrow> set p \<subseteq> set s"
  by (induction p s rule: starts_with.induct) auto

lemma contains_set: "contains p s \<Longrightarrow> set p \<subseteq> set s"
proof (induction s)
  case Nil
  then show ?case by simp
next
  case (Cons c cs)
  from Cons.prems have "starts_with p (c # cs) \<or> contains p cs" by simp
  then show ?case
  proof
    assume "starts_with p (c # cs)"
    then show ?thesis by (rule starts_with_set)
  next
    assume "contains p cs"
    with Cons.IH show ?thesis by auto
  qed
qed

lemma hyphen_not_kept: "\<not> (is_word_char (CHR ''-'') \<or> is_space_char (CHR ''-''))"
  by (simp add: is_word_char_def is_space_char_def)

text \<open>A phrase with a hyphen in it never occurs in a cleaned query: the hyphen has been
  deleted from the query before the table is consulted.\<close>

lemma hyphenated_phrase_never_matches:
  assumes "CHR ''-'' \<in> set phrase"
  shows "\<not> contains phrase (clean_query query)"
proof
  assume "contains phrase (clean_query query)"
  then have "set phrase \<subseteq> set (clean_query query)" by (rule contains_set)
  with assms have "CHR ''-'' \<in> set (clean_query query)" by auto
  then have "is_word_char (CHR ''-'') \<or> is_space_char (CHR ''-'')"
    by (simp add: clean_query_def)
  with hyphen_not_kept show False by simp
qed

text \<open>
  C4. The Genre Extractor is claimed to return "science fiction" for an input that
  contains the listed phrase "sci-fi". On the request "I love sci-fi novels" the
  cleaned query is "i love scifi novels", no phrase of the table occurs in it, and
  the default label "fiction" is returned.
\<close>

theorem C4_sci_fi_falls_back_to_fiction:
  "contains ''sci-fi'' ''I love sci-fi novels'' \<and>
   clean_query ''I love sci-fi novels'' = ''i love scifi novels'' \<and>
   extract_subject_from_query ''I love sci-fi novels'' = ''fiction''"
  by code_simp

section \<open>Lemmas about the dispatcher and the catalog client\<close>

lemma task_lower_string:
  "map_of d ''task'' = Some (VStr t) \<Longrightarrow> task_lower (VDict d) = Inr (lower t)"
  by (simp add: task_lower_def dict_item_def)

lemma dispatch_fetch:
  assumes "map_of d ''task'' = Some (VStr t)" and "spec_classify (lower t) = FETCH"
  shows "dynamic_tool_agent builtin cat (VDict d) state = fetch_branch cat (subject_of state) state"
  using assms
  by (auto simp: dynamic_tool_agent_def task_lower_string spec_classify_def Let_def subject_of_def
           split: if_splits)

lemma dispatch_filter:
  assumes "map_of d ''task'' = Some (VStr t)" and "spec_classify (lower t) = FILTER"
  shows "dynamic_tool_agent builtin cat (VDict d) state = filter_branch builtin state"
  using assms
  by (auto simp: dynamic_tool_agent_def task_lower_string spec_classify_def Let_def
           split: if_splits)

lemma dispatch_present:
  assumes "map_of d ''task'' = Some (VStr t)" and "spec_classify (lower t) = PRESENT"
  shows "dynamic_tool_agent builtin cat (VDict d) state = present_branch state"
  using assms
  by (auto simp: dynamic_tool_agent_def task_lower_string spec_classify_def Let_def
           split: if_splits)

lemma dispatch_noop:
  assumes "map_of d ''task'' = Some (VStr t)" and "spec_classify (lower t) = NOOP"
  shows "dynamic_tool_agent builtin cat (VDict d) state = Inr (VNone, state)"
  using assms
  by (auto simp: dynamic_tool_agent_def task_lower_string spec_classify_def Let_def
           split: if_splits)

lemma mapM_Inr_iff:
  "mapM f xs = Inr ys \<longleftrightarrow> list_all2 (\<lambda>x y. f x = Inr y) xs ys"
proof (induction xs arbitrary: ys)
  case Nil
  show ?case by auto
next
  case (Cons x xs)
  show ?case
  proof (cases "f x")
    case (Inl e)
    then show ?thesis by (auto simp: list_all2_Cons1)
  next
    case (Inr y)
    then show ?thesis
      using Cons.IH by (cases "mapM f xs") (auto simp: list_all2_Cons1)
  qed
qed

lemma list_all2_right:
  assumes "list_all2 P xs ys" and "y \<in> set ys"
  shows "\<exists>x. P x y"
  using assms by (induction rule: list_all2_induct) auto

lemma mapM_total:
  assumes "\<And>x. x \<in> set xs \<Longrightarrow> f x = Inr (g x)"
  shows "mapM f xs = Inr (map g xs)"
  using assms by (induction xs) auto

lemma fetch_record_ok:
  assumes "item_ok item"
  shows "fetch_record item =
           Inr [(''title'', dict_get (volume_info item) ''title'' (VStr ''N/A'')),
                (''authors'', dict_get (volume_info item) ''authors'' (VList [VStr ''N/A''])),
                (''description'', dict_get (volume_info item) ''description'' (VStr ''No summary found.'')),
                (''averageRating'', dict_get (volume_info item) ''averageRating'' (VInt 0)),
                (''ratingsCount'', dict_get (volume_info item) ''ratingsCount'' (VInt 0)),
                (''publishedDate'', dict_get (volume_info item) ''publishedDate'' (VStr [])),
                (''categories'', dict_get (volume_info item) ''categories'' (VList [])),
                (''snippet'', (case item of VDict d \<Rightarrow>
                     (case dict_get d ''searchInfo'' (VDict []) of
                        VDict si \<Rightarrow> dict_get si ''textSnippet'' (VStr ''No review snippet found.'')
                      | _ \<Rightarrow> VNone) | _ \<Rightarrow> VNone)),
                (''infoLink'', dict_get (volume_info item) ''infoLink'' (VStr []))]"
  using assms
  by (auto simp: item_ok_def fetch_record_def py_get_def volume_info_def
           split: pyval.splits)

lemma fetch_record_keys:
  assumes "fetch_record item = Inr r"
  shows "map fst r = [''title'', ''authors'', ''description'', ''averageRating'',
                      ''ratingsCount'', ''publishedDate'', ''categories'', ''snippet'', ''infoLink'']"
  using assms
  by (auto simp: fetch_record_def split: sum.splits pyval.splits)


lemma response_items_ok:
  assumes "response_items body = Some items"
  shows "list_all item_ok items"
  using assms
  by (auto simp: response_items_def split: pyval.splits if_splits)

lemma fetch_books_items:
  assumes "cat (''subject:'' @ subject) m = Inr body" and "response_items body = Some items"
  shows "fetch_books cat subject m = mapM fetch_record items"
  using assms
  by (auto simp: fetch_books_def response_items_def py_get_def split: pyval.splits if_splits)

lemma rated_projection_fetch_record:
  assumes "item_ok item" and "fetch_record item = Inr r"
  shows "rated_projection r = Inr (spec_entry item)"
  using assms fetch_record_ok [OF assms(1)]
  by (auto simp: rated_projection_def dict_item_def dict_get_def spec_entry_def)

lemma mapM_map: "mapM f (map g xs) = mapM (\<lambda>x. f (g x)) xs"
  by (induction xs) (auto split: sum.splits)

lemma fetch_branch_items:
  assumes "cat (''subject:'' @ subject) 10 = Inr body" and "response_items body = Some items"
  shows "\<exists>fetched. length fetched = length items \<and>
           fetch_branch cat subject state =
             Inr (VList (map VDict fetched), state\<lparr>books := Some (map spec_entry items)\<rparr>)"
proof -
  have ok: "list_all item_ok items" using assms(2) by (rule response_items_ok)
  define g where "g item = projr (fetch_record item)" for item
  have rec: "fetch_record item = Inr (g item)" if "item \<in> set items" for item
    using that ok fetch_record_ok [of item] by (simp add: list_all_iff g_def)
  have fb: "fetch_books cat subject 10 = Inr (map g items)"
    using assms fetch_books_items [of cat subject 10 body items]
      mapM_total [of items fetch_record g] rec by simp
  have pr: "rated_projection (g item) = Inr (spec_entry item)" if "item \<in> set items" for item
    using that ok rec rated_projection_fetch_record [of item "g item"]
    by (simp add: list_all_iff)
  have "mapM rated_projection (map g items) = Inr (map spec_entry items)"
    unfolding mapM_map using pr by (rule mapM_total)
  with fb have "fetch_branch cat subject state =
      Inr (VList (map VDict (map g items)), state\<lparr>books := Some (map spec_entry items)\<rparr>)"
    by (simp add: fetch_branch_def)
  moreover have "length (map g items) = length items" by simp
  ultimately show ?thesis by blast
qed

lemma spec_entry_keys: "map fst (spec_entry item) = [''title'', ''authors'', ''averageRating'']"
  by (simp add: spec_entry_def)


lemma insort_key_cong:
  "f x = g x \<Longrightarrow> (\<And>y. y \<in> set xs \<Longrightarrow> f y = g y) \<Longrightarrow> insort_key f x xs = insort_key g x xs"
  by (induction xs) auto

lemma sort_key_cong:
  "(\<And>x. x \<in> set xs \<Longrightarrow> f x = g x) \<Longrightarrow> sort_key f xs = sort_key g xs"
proof (induction xs)
  case Nil
  show ?case by simp
next
  case (Cons x xs)
  have "sort_key f xs = sort_key g xs" using Cons by simp
  moreover have "insort_key f x (sort_key g xs) = insort_key g x (sort_key g xs)"
    by (rule insort_key_cong) (use Cons.prems in auto)
  ultimately show ?case by simp
qed

lemma sorted_by_rating_numeric:
  assumes "list_all numeric_rating bs"
  shows "sorted_by_rating builtin bs = Inr (stable_descending bs)"
proof -
  have "the (num_of (rating_key b)) = rating b" if "b \<in> set (rev bs)" for b
    using that assms by (auto simp: list_all_iff numeric_rating_def rating_def)
  then have "sort_key (\<lambda>b. the (num_of (rating_key b))) (rev bs) = sort_key rating (rev bs)"
    by (rule sort_key_cong)
  moreover have "list_all (\<lambda>b. num_of (rating_key b) \<noteq> None) bs"
    using assms by (simp add: list_all_iff numeric_rating_def)
  ultimately show ?thesis
    by (simp add: sorted_by_rating_def stable_descending_def)
qed

lemma set_stable_descending: "set (stable_descending bs) = set bs"
  by (simp add: stable_descending_def)

lemma mset_stable_descending: "mset (stable_descending bs) = mset bs"
  by (simp add: stable_descending_def)

lemma stable_descending_sorted: "sorted (rev (map rating (stable_descending bs)))"
  by (simp add: stable_descending_def rev_map)

lemma stable_descending_stable:
  "filter (\<lambda>b. rating b = r) (stable_descending bs) = filter (\<lambda>b. rating b = r) bs"
  by (simp add: stable_descending_def rev_filter [symmetric] sort_key_stable)

lemma plain_projection_ok:
  assumes "has_title_authors b"
  shows "plain_projection b = Inr (title_authors b)"
  using assms
  by (auto simp: has_title_authors_def plain_projection_def title_authors_def
                 dict_item_def dict_get_def)

lemma filter_branch_ok:
  assumes "list_all (\<lambda>b. has_title_authors b \<and> numeric_rating b) (stored_books state)"
  shows "filter_branch builtin state =
           Inr (VList (map VDict (stable_descending (stored_books state))),
                state\<lparr>filtered_books :=
                        Some (map title_authors (stable_descending (stored_books state)))\<rparr>)"
proof -
  have num: "list_all numeric_rating (stored_books state)"
    using assms by (simp add: list_all_iff)
  have "plain_projection b = Inr (title_authors b)"
    if "b \<in> set (stable_descending (stored_books state))" for b
    using that assms by (simp add: set_stable_descending list_all_iff plain_projection_ok)
  then have "mapM plain_projection (stable_descending (stored_books state)) =
               Inr (map title_authors (stable_descending (stored_books state)))"
    by (rule mapM_total)
  then show ?thesis
    using sorted_by_rating_numeric [OF num, of builtin]
    by (simp add: filter_branch_def stored_books_def)
qed

lemma present_branch_ok:
  assumes "list_all (\<lambda>b. map_of b ''title'' \<noteq> None) (take 5 (stored_filtered state))"
  shows "present_branch state =
           Inr (VList (map (\<lambda>b. dict_get b ''title'' VNone) (take 5 (stored_filtered state))),
                state\<lparr>presentation :=
                        Some (map (\<lambda>b. dict_get b ''title'' VNone) (take 5 (stored_filtered state))),
                      top_book := Some (case stored_filtered state of [] \<Rightarrow> [] | b # _ \<Rightarrow> b)\<rparr>)"
proof -
  have "dict_item b ''title'' = Inr (dict_get b ''title'' VNone)"
    if "b \<in> set (take 5 (stored_filtered state))" for b
    using that assms by (auto simp: list_all_iff dict_item_def dict_get_def)
  then have "mapM (\<lambda>b. dict_item b ''title'') (take 5 (stored_filtered state)) =
               Inr (map (\<lambda>b. dict_get b ''title'' VNone) (take 5 (stored_filtered state)))"
    by (rule mapM_total)
  then show ?thesis
    by (cases "stored_filtered state = []")
       (simp_all add: present_branch_def Let_def stored_filtered_def)
qed


section \<open>Stored records stay titled\<close>

lemma mapM_results:
  assumes "mapM f xs = Inr ys" and "y \<in> set ys"
  shows "\<exists>x. f x = Inr y"
  using assms by (auto simp: mapM_Inr_iff dest: list_all2_right)

lemma rated_projection_titled:
  assumes "rated_projection b = Inr q"
  shows "has_title_authors q"
  using assms
  by (auto simp: rated_projection_def has_title_authors_def split: sum.splits)

lemma plain_projection_titled:
  assumes "plain_projection b = Inr q"
  shows "has_title_authors q"
  using assms
  by (auto simp: plain_projection_def has_title_authors_def split: sum.splits)

lemma fetch_branch_titled:
  assumes "titled state" and "fetch_branch cat subject state = Inr (r, s)"
  shows "titled s"
proof -
  from assms(2) obtain fetched ps where
    ps: "mapM rated_projection fetched = Inr ps" and s: "s = state\<lparr>books := Some ps\<rparr>"
    by (auto simp: fetch_branch_def split: sum.splits)
  have "has_title_authors q" if "q \<in> set ps" for q
    using mapM_results [OF ps that] by (auto dest: rated_projection_titled)
  then show ?thesis
    using assms(1) by (simp add: s titled_def stored_books_def stored_filtered_def list_all_iff)
qed

lemma filter_branch_titled:
  assumes "titled state" and "filter_branch builtin state = Inr (r, s)"
  shows "titled s"
proof -
  from assms(2) obtain filtered ps where
    ps: "mapM plain_projection filtered = Inr ps" and s: "s = state\<lparr>filtered_books := Some ps\<rparr>"
    by (auto simp: filter_branch_def split: sum.splits)
  have "has_title_authors q" if "q \<in> set ps" for q
    using mapM_results [OF ps that] by (auto dest: plain_projection_titled)
  then show ?thesis
    using assms(1) by (simp add: s titled_def stored_books_def stored_filtered_def list_all_iff)
qed

lemma present_branch_titled:
  assumes "titled state" and "present_branch state = Inr (r, s)"
  shows "titled s"
  using assms
  by (auto simp: present_branch_def Let_def titled_def stored_books_def stored_filtered_def
           split: sum.splits)

text \<open>The dispatcher keeps the stored records titled, whatever the step and the catalog.\<close>

lemma dynamic_tool_agent_titled:
  assumes "titled state" and "dynamic_tool_agent builtin cat task_dict state = Inr (r, s)"
  shows "titled s"
  using assms
  by (auto simp: dynamic_tool_agent_def Let_def
           dest: fetch_branch_titled filter_branch_titled present_branch_titled
           split: sum.splits if_splits)

lemma tool_node_titled:
  assumes "titled state" and "tool_node builtin cat state = (n, Inr s)"
  shows "titled s"
proof -
  have upd: "titled (u\<lparr>current_step := a\<rparr>) = titled u" for u a
    by (simp add: titled_def stored_books_def stored_filtered_def)
  have upd': "titled (u\<lparr>is_done := b\<rparr>) = titled u" for u b
    by (simp add: titled_def stored_books_def stored_filtered_def)
  show ?thesis
    using assms
    by (auto simp: tool_node_def upd upd' dest: dynamic_tool_agent_titled
             split: option.splits if_splits sum.splits prod.splits)
qed

lemma executor_loop_titled:
  assumes "titled state"
  shows "list_all titled (trace (executor_loop builtin cat state))"
  using assms
proof (induction builtin cat state rule: executor_loop.induct)
  case (1 builtin cat state)
  obtain n res where tn: "tool_node builtin cat state = (n, res)"
    by (cases "tool_node builtin cat state") auto
  show ?case
  proof (cases res)
    case (Inl e)
    then have "executor_loop builtin cat state = (n, [], Inl e)"
      by (subst executor_loop.simps) (simp add: tn)
    then show ?thesis by (simp add: trace_def)
  next
    case (Inr s)
    have ts: "titled s" using "1.prems" tn Inr by (auto dest: tool_node_titled)
    show ?thesis
    proof (cases "is_done s = Some True")
      case True
      then have "executor_loop builtin cat state = (n, [s], Inr s)"
        by (subst executor_loop.simps) (simp add: tn Inr)
      then show ?thesis
        using ts by (simp add: trace_def)
    next
      case False
      obtain m tr out where rest: "executor_loop builtin cat s = (m, tr, out)"
        by (cases "executor_loop builtin cat s") auto
      have "list_all titled (trace (executor_loop builtin cat s))"
        using "1.IH" [of n res s] tn Inr False ts by simp
      then have "list_all titled (s # tr)"
        using ts rest by (simp add: trace_def)
      moreover have "executor_loop builtin cat state = (n + m, s # tr, out)"
        by (subst executor_loop.simps) (simp add: tn Inr False rest)
      ultimately show ?thesis by (simp add: trace_def)
    qed
  qed
qed

text \<open>In a run started by the UI shell, every state the executor returns holds titled
  records: the hypotheses of the FILTER and PRESENT theorems about titles hold there.\<close>

lemma invoke_titled:
  "list_all titled (trace (invoke llm1 literal_eval builtin cat (initial_state query)))"
proof (cases "plan_node llm1 literal_eval (initial_state query)")
  case (Inl e)
  then show ?thesis by (simp add: invoke_def trace_def)
next
  case (Inr s)
  then have "titled s"
    by (auto simp: plan_node_def initial_state_def titled_def stored_books_def stored_filtered_def
             split: sum.splits)
  then show ?thesis
    using Inr executor_loop_titled by (simp add: invoke_def)
qed

section \<open>Step Dispatcher: classification\<close>

text \<open>
  C2. For every step that is a mapping whose task text is a string, the dispatcher acts
  on the lowercased task by the first matching keyword group in the fixed order of the
  specification: the fetch group runs the fetch branch, else the filter group runs the
  filter branch, else the present group runs the present branch, else the result is
  \<^verbatim>\<open>None\<close> with the state unchanged.
\<close>

theorem C2_dispatch_by_first_matching_group:
  assumes "map_of d ''task'' = Some (VStr t)"
  shows "dynamic_tool_agent builtin cat (VDict d) state =
           (case spec_classify (lower t) of
              FETCH \<Rightarrow> fetch_branch cat (extract_subject_from_query
                         (case user_query state of None \<Rightarrow> [] | Some q \<Rightarrow> q)) state
            | FILTER \<Rightarrow> filter_branch builtin state
            | PRESENT \<Rightarrow> present_branch state
            | NOOP \<Rightarrow> Inr (VNone, state))"
  using assms
  by (simp add: dynamic_tool_agent_def task_lower_string spec_classify_def Let_def)

text \<open>A task with both "rating" and "suggest" in it runs the filter branch.\<close>

theorem C2_witness:
  "map_of [(''task'', VStr ''Use the RATING to suggest one'')] ''task''
     = Some (VStr ''Use the RATING to suggest one'') \<and>
   spec_classify (lower ''Use the RATING to suggest one'') = FILTER \<and>
   dynamic_tool_agent no_sorter (\<lambda>q m. Inl RequestError)
       (VDict [(''task'', VStr ''Use the RATING to suggest one'')]) (initial_state ''a funny book'')
     = filter_branch no_sorter (initial_state ''a funny book'')"
proof -
  have h: "map_of [(''task'', VStr ''Use the RATING to suggest one'')] ''task''
             = Some (VStr ''Use the RATING to suggest one'')"
    by simp
  have k: "spec_classify (lower ''Use the RATING to suggest one'') = FILTER"
    by code_simp
  show ?thesis
    using h k C2_dispatch_by_first_matching_group
      [where builtin = no_sorter and cat = "\<lambda>q m. Inl RequestError"
         and state = "initial_state ''a funny book''", OF h]
    by simp
qed

section \<open>FILTER\<close>

lemma rating_key_spec_entry:
  "rating_key (spec_entry item) = dict_get (volume_info item) ''averageRating'' (VInt 0)"
  by (simp add: rating_key_def spec_entry_def dict_get_def)

text \<open>When the ratings of the response are numbers, so are those FETCH stores.\<close>

lemma fetch_stores_numeric_ratings:
  assumes "map_of d ''task'' = Some (VStr t)" and "spec_classify (lower t) = FETCH"
    and "cat (''subject:'' @ subject_of state) 10 = Inr body"
    and "response_items body = Some items" and "numeric_items items"
    and "dynamic_tool_agent builtin cat (VDict d) state = Inr (r, s)"
  shows "list_all (\<lambda>b. has_title_authors b \<and> numeric_rating b) (stored_books s)"
proof -
  from assms(3,4) fetch_branch_items [of cat "subject_of state" body items state]
  obtain fetched where
    "fetch_branch cat (subject_of state) state =
       Inr (VList (map VDict fetched), state\<lparr>books := Some (map spec_entry items)\<rparr>)"
    by blast
  with assms(6) have "s = state\<lparr>books := Some (map spec_entry items)\<rparr>"
    using dispatch_fetch [where builtin = builtin and cat = cat and state = state, OF assms(1,2)]
    by simp
  then have "stored_books s = map spec_entry items"
    by (simp add: stored_books_def)
  moreover have "has_title_authors (spec_entry item)" for item
    by (simp add: has_title_authors_def spec_entry_def)
  moreover have "numeric_rating (spec_entry item)" if "item \<in> set items" for item
    using that assms(5)
    by (simp add: numeric_rating_def rating_key_spec_entry numeric_items_def list_all_iff)
  ultimately show ?thesis by (simp add: list_all_iff)
qed

text \<open>
  C5 (amended). For every stored list of books (the empty list when the field is absent)
  whose entries carry a title, authors and a rating that is an int, a bool or a finite
  float (or none, read as 0), the FILTER step returns the books sorted in non-increasing
  order of rating, a permutation of the stored list in which books of equal rating keep
  their original relative order, and stores the title and authors of each, in that
  order, into \<^verbatim>\<open>filtered_books\<close>.
\<close>

theorem C5_filter_is_stable_descending_sort:
  assumes "map_of d ''task'' = Some (VStr t)" and "spec_classify (lower t) = FILTER"
    and "list_all (\<lambda>b. has_title_authors b \<and> numeric_rating b) (stored_books state)"
  shows "\<exists>srt. dynamic_tool_agent builtin cat (VDict d) state =
                 Inr (VList (map VDict srt), state\<lparr>filtered_books := Some (map title_authors srt)\<rparr>) \<and>
               sorted_wrt (\<lambda>x y. y \<le> x) (map rating srt) \<and>
               mset srt = mset (stored_books state) \<and>
               (\<forall>r. filter (\<lambda>b. rating b = r) srt = filter (\<lambda>b. rating b = r) (stored_books state))"
proof -
  let ?srt = "stable_descending (stored_books state)"
  have "dynamic_tool_agent builtin cat (VDict d) state =
          Inr (VList (map VDict ?srt), state\<lparr>filtered_books := Some (map title_authors ?srt)\<rparr>)"
    using dispatch_filter [OF assms(1,2)] filter_branch_ok [OF assms(3)] by simp
  moreover have "sorted_wrt (\<lambda>x y. y \<le> x) (map rating ?srt)"
    using stable_descending_sorted [of "stored_books state"]
    by (simp add: sorted_wrt_rev)
  moreover have "mset ?srt = mset (stored_books state)"
    by (rule mset_stable_descending)
  moreover have "\<forall>r. filter (\<lambda>b. rating b = r) ?srt = filter (\<lambda>b. rating b = r) (stored_books state)"
    by (simp add: stable_descending_stable)
  ultimately show ?thesis by blast
qed

text \<open>The specification's example: ratings 4, 5, 4 of A, B, C give B, A, C.\<close>

theorem C5_witness:
  "map_of [(''task'', VStr ''Filter by rating'')] ''task'' = Some (VStr ''Filter by rating'') \<and>
   spec_classify (lower ''Filter by rating'') = FILTER \<and>
   list_all (\<lambda>b. has_title_authors b \<and> numeric_rating b) (stored_books rated_state) \<and>
   (\<exists>srt. dynamic_tool_agent no_sorter (catalog_of VNone) (VDict [(''task'', VStr ''Filter by rating'')]) rated_state =
                 Inr (VList (map VDict srt), rated_state\<lparr>filtered_books := Some (map title_authors srt)\<rparr>) \<and>
               sorted_wrt (\<lambda>x y. y \<le> x) (map rating srt) \<and>
               mset srt = mset (stored_books rated_state) \<and>
               (\<forall>r. filter (\<lambda>b. rating b = r) srt = filter (\<lambda>b. rating b = r) (stored_books rated_state))) \<and>
   state_after (dynamic_tool_agent no_sorter (catalog_of VNone) (VDict [(''task'', VStr ''Filter by rating'')]) rated_state)
     = Some (rated_state\<lparr>filtered_books :=
          Some (map title_authors [example_book ''B'' 5, example_book ''A'' 4, example_book ''C'' 4])\<rparr>)"
proof -
  have h1: "map_of [(''task'', VStr ''Filter by rating'')] ''task'' = Some (VStr ''Filter by rating'')"
    by simp
  have h2: "spec_classify (lower ''Filter by rating'') = FILTER"
    by code_simp
  have h3: "list_all (\<lambda>b. has_title_authors b \<and> numeric_rating b) (stored_books rated_state)"
    by code_simp
  have h4: "state_after (dynamic_tool_agent no_sorter (catalog_of VNone) (VDict [(''task'', VStr ''Filter by rating'')]) rated_state)
     = Some (rated_state\<lparr>filtered_books :=
          Some (map title_authors [example_book ''B'' 5, example_book ''A'' 4, example_book ''C'' 4])\<rparr>)"
    by code_simp
  show ?thesis
    using h1 h2 h3 h4 C5_filter_is_stable_descending_sort
      [where builtin = no_sorter and cat = "catalog_of VNone", OF h1 h2 h3]
    by blast
qed

text \<open>C5 as stated holds of every stored list. A response with \<^verbatim>\<open>null\<close> for one rating
  and 4 for another is well formed, FETCH stores the two books, and FILTER raises
  \<^verbatim>\<open>TypeError\<close> when it compares the keys: the run ends in its second dispatch.\<close>

theorem C5_counterexample:
  "response_items null_rating_body \<noteq> None \<and>
   Option.bind
     (state_after (dynamic_tool_agent no_sorter (catalog_of null_rating_body)
                     (VDict [(''task'', VStr ''Search the catalog'')]) (initial_state ''a good book'')))
     books = books null_rated_state \<and>
   dynamic_tool_agent no_sorter (catalog_of null_rating_body)
     (VDict [(''task'', VStr ''Filter by rating'')]) null_rated_state = Inl TypeError \<and>
   dispatches (invoke (llm_of three_step_reply) (literal_table three_step_table) no_sorter
                 (catalog_of null_rating_body) (initial_state ''a good book'')) = 2 \<and>
   outcome (invoke (llm_of three_step_reply) (literal_table three_step_table) no_sorter
                 (catalog_of null_rating_body) (initial_state ''a good book'')) = Inl TypeError"
  by code_simp

section \<open>PRESENT\<close>

text \<open>
  C6. For every state whose first five filtered books carry a title, the PRESENT step
  stores the titles of the first \<open>min 5 n\<close> of the \<open>n\<close> filtered books, in order, into
  \<^verbatim>\<open>presentation\<close> (so at most five), and the first filtered book into
  \<^verbatim>\<open>top_book\<close>; with no filtered books, stored or absent, it stores the empty list
  and the empty record and does not raise.
\<close>

theorem C6_present_stores_first_five_titles:
  assumes "map_of d ''task'' = Some (VStr t)" and "spec_classify (lower t) = PRESENT"
    and "list_all (\<lambda>b. map_of b ''title'' \<noteq> None) (take 5 (stored_filtered state))"
  shows "\<exists>titles top. dynamic_tool_agent builtin cat (VDict d) state =
                 Inr (VList titles, state\<lparr>presentation := Some titles, top_book := Some top\<rparr>) \<and>
               titles = map (\<lambda>b. dict_get b ''title'' VNone) (take 5 (stored_filtered state)) \<and>
               length titles = min 5 (length (stored_filtered state)) \<and>
               length titles \<le> 5 \<and>
               top = (case stored_filtered state of [] \<Rightarrow> [] | b # bs \<Rightarrow> b)"
  using dispatch_present [OF assms(1,2)] present_branch_ok [OF assms(3)]
  by simp

text \<open>Six filtered books give the first five titles; a fresh state gives the empty
  presentation and the empty top book.\<close>

theorem C6_witness:
  "map_of [(''task'', VStr ''Recommend the best'')] ''task'' = Some (VStr ''Recommend the best'') \<and>
   spec_classify (lower ''Recommend the best'') = PRESENT \<and>
   list_all (\<lambda>b. map_of b ''title'' \<noteq> None) (take 5 (stored_filtered six_filtered_state)) \<and>
   list_all (\<lambda>b. map_of b ''title'' \<noteq> None) (take 5 (stored_filtered (initial_state ''a good book''))) \<and>
   dynamic_tool_agent no_sorter (catalog_of VNone) (VDict [(''task'', VStr ''Recommend the best'')]) six_filtered_state
     = Inr (VList [VStr ''P'', VStr ''Q'', VStr ''R'', VStr ''S'', VStr ''T''],
            six_filtered_state
              \<lparr>presentation := Some [VStr ''P'', VStr ''Q'', VStr ''R'', VStr ''S'', VStr ''T''],
               top_book := Some (title_authors (example_book ''P'' 5))\<rparr>) \<and>
   dynamic_tool_agent no_sorter (catalog_of VNone) (VDict [(''task'', VStr ''Recommend the best'')])
       (initial_state ''a good book'')
     = Inr (VList [], (initial_state ''a good book'')\<lparr>presentation := Some [], top_book := Some []\<rparr>)"
proof -
  have h1: "map_of [(''task'', VStr ''Recommend the best'')] ''task'' = Some (VStr ''Recommend the best'')"
    by simp
  have h2: "spec_classify (lower ''Recommend the best'') = PRESENT"
    by code_simp
  have h3: "list_all (\<lambda>b. map_of b ''title'' \<noteq> None) (take 5 (stored_filtered six_filtered_state))"
    by code_simp
  have h4: "list_all (\<lambda>b. map_of b ''title'' \<noteq> None) (take 5 (stored_filtered (initial_state ''a good book'')))"
    by code_simp
  have e1: "stored_filtered six_filtered_state = map title_authors
                  [example_book ''P'' 5, example_book ''Q'' 5, example_book ''R'' 4,
                   example_book ''S'' 3, example_book ''T'' 2, example_book ''U'' 1]"
    by (simp add: stored_filtered_def six_filtered_state_def)
  have e2: "stored_filtered (initial_state ''a good book'') = []"
    by (simp add: stored_filtered_def initial_state_def)
  have a: "dynamic_tool_agent no_sorter (catalog_of VNone) (VDict [(''task'', VStr ''Recommend the best'')]) six_filtered_state
     = Inr (VList [VStr ''P'', VStr ''Q'', VStr ''R'', VStr ''S'', VStr ''T''],
            six_filtered_state
              \<lparr>presentation := Some [VStr ''P'', VStr ''Q'', VStr ''R'', VStr ''S'', VStr ''T''],
               top_book := Some (title_authors (example_book ''P'' 5))\<rparr>)"
    using C6_present_stores_first_five_titles
      [where builtin = no_sorter and cat = "catalog_of VNone", OF h1 h2 h3]
    by (simp add: e1 title_authors_def example_book_def dict_get_def)
  have b: "dynamic_tool_agent no_sorter (catalog_of VNone) (VDict [(''task'', VStr ''Recommend the best'')])
       (initial_state ''a good book'')
     = Inr (VList [], (initial_state ''a good book'')\<lparr>presentation := Some [], top_book := Some []\<rparr>)"
    using C6_present_stores_first_five_titles
      [where builtin = no_sorter and cat = "catalog_of VNone", OF h1 h2 h4]
    by (simp add: e2)
  show ?thesis using h1 h2 h3 h4 a b by blast
qed

section \<open>FETCH\<close>

text \<open>
  C9 (amended). For every catalog response that is a JSON object whose items, if any, are
  objects with an optional \<^verbatim>\<open>volumeInfo\<close> object, the FETCH step writes into
  \<^verbatim>\<open>books\<close> one entry per item of the response, in order, each with exactly the
  fields title, authors and averageRating, a missing title read as "N/A", missing
  authors as ["N/A"] and a missing rating as 0. The length of \<^verbatim>\<open>books\<close> is the number
  of items in the response, whatever maximum was requested.
\<close>

theorem C9_fetch_writes_three_field_entries:
  assumes "map_of d ''task'' = Some (VStr t)" and "spec_classify (lower t) = FETCH"
    and "cat (''subject:'' @ subject_of state) 10 = Inr body"
    and "response_items body = Some items"
  shows "\<exists>r s. dynamic_tool_agent builtin cat (VDict d) state = Inr (r, s) \<and>
           books s = Some (map spec_entry items) \<and>
           length (map spec_entry items) = length items \<and>
           list_all (\<lambda>b. map fst b = [''title'', ''authors'', ''averageRating''])
                    (map spec_entry items)"
proof -
  from assms(3,4) fetch_branch_items [of cat "subject_of state" body items state]
  obtain fetched where
    "fetch_branch cat (subject_of state) state =
       Inr (VList (map VDict fetched), state\<lparr>books := Some (map spec_entry items)\<rparr>)"
    by blast
  then have "dynamic_tool_agent builtin cat (VDict d) state =
       Inr (VList (map VDict fetched), state\<lparr>books := Some (map spec_entry items)\<rparr>)"
    using dispatch_fetch [OF assms(1,2)] by simp
  then show ?thesis
    by (auto simp: list_all_iff spec_entry_keys)
qed

text \<open>A response of two items, the second without \<^verbatim>\<open>volumeInfo\<close>.\<close>

theorem C9_witness:
  "map_of [(''task'', VStr ''Search the catalog'')] ''task'' = Some (VStr ''Search the catalog'') \<and>
   spec_classify (lower ''Search the catalog'') = FETCH \<and>
   catalog_of two_item_body (''subject:'' @ subject_of (initial_state ''a fantasy book'')) 10
     = Inr two_item_body \<and>
   response_items two_item_body = Some two_items \<and>
   Option.bind
     (state_after (dynamic_tool_agent no_sorter (catalog_of two_item_body)
                     (VDict [(''task'', VStr ''Search the catalog'')])
                     (initial_state ''a fantasy book'')))
     books
   = Some [[(''title'', VStr ''Dune''), (''authors'', VList [VStr ''Frank Herbert'']),
            (''averageRating'', VFloat (9 / 2))],
           [(''title'', VStr ''N/A''), (''authors'', VList [VStr ''N/A'']),
            (''averageRating'', VInt 0)]]"
proof -
  have h1: "map_of [(''task'', VStr ''Search the catalog'')] ''task'' = Some (VStr ''Search the catalog'')"
    by simp
  have h2: "spec_classify (lower ''Search the catalog'') = FETCH"
    by code_simp
  have h3: "catalog_of two_item_body (''subject:'' @ subject_of (initial_state ''a fantasy book'')) 10
              = Inr two_item_body"
    by (simp add: catalog_of_def)
  have h4: "response_items two_item_body = Some two_items"
    by code_simp
  have e: "map spec_entry two_items =
             [[(''title'', VStr ''Dune''), (''authors'', VList [VStr ''Frank Herbert'']),
               (''averageRating'', VFloat (9 / 2))],
              [(''title'', VStr ''N/A''), (''authors'', VList [VStr ''N/A'']),
               (''averageRating'', VInt 0)]]"
    by (simp add: two_items_def spec_entry_def volume_info_def dict_get_def)
  from C9_fetch_writes_three_field_entries
         [where builtin = no_sorter and cat = "catalog_of two_item_body"
            and state = "initial_state ''a fantasy book''",
          OF h1 h2 h3 h4]
  obtain r s where
    "dynamic_tool_agent no_sorter (catalog_of two_item_body) (VDict [(''task'', VStr ''Search the catalog'')])
       (initial_state ''a fantasy book'') = Inr (r, s)"
    and "books s = Some (map spec_entry two_items)"
    by blast
  then have "Option.bind
     (state_after (dynamic_tool_agent no_sorter (catalog_of two_item_body)
                     (VDict [(''task'', VStr ''Search the catalog'')])
                     (initial_state ''a fantasy book'')))
     books = Some (map spec_entry two_items)"
    by (simp add: state_after_def)
  with h1 h2 h3 h4 e show ?thesis by simp
qed

text \<open>C9 as stated bounds the length by the requested maximum. A response of eleven items
  to the request for at most ten gives eleven books.\<close>

theorem C9_counterexample:
  "response_items eleven_items = Some (replicate 11 (VDict [])) \<and>
   map_option length
     (Option.bind
        (state_after (dynamic_tool_agent no_sorter (catalog_of eleven_items)
                        (VDict [(''task'', VStr ''Search the catalog'')])
                        (initial_state ''a fantasy book'')))
        books) = Some 11 \<and>
   \<not> (11::nat) \<le> 10"
  by code_simp

section \<open>Step Dispatcher: malformed steps\<close>

lemma fetch_record_has_title_authors:
  assumes "fetch_record item = Inr r"
  shows "has_title_authors r"
proof -
  have "map_of r k \<noteq> None" if "k \<in> set (map fst r)" for k
    using that by (simp add: map_of_eq_None_iff)
  then show ?thesis
    using fetch_record_keys [OF assms] by (simp add: has_title_authors_def)
qed

lemma fetch_books_has_title_authors:
  assumes "fetch_books cat subject m = Inr fetched"
  shows "list_all has_title_authors fetched"
proof -
  have "fetched = [] \<or> (\<exists>xs. mapM fetch_record xs = Inr fetched)"
    using assms
    by (auto simp: fetch_books_def split: sum.splits if_splits pyval.splits)
  then show ?thesis
  proof
    assume "fetched = []"
    then show ?thesis by simp
  next
    assume "\<exists>xs. mapM fetch_record xs = Inr fetched"
    then obtain xs where "list_all2 (\<lambda>x y. fetch_record x = Inr y) xs fetched"
      by (auto simp: mapM_Inr_iff)
    then have "\<exists>x. fetch_record x = Inr r" if "r \<in> set fetched" for r
      using that by (rule list_all2_right)
    then show ?thesis
      by (auto simp: list_all_iff dest: fetch_record_has_title_authors)
  qed
qed

lemma rated_projection_ok:
  assumes "has_title_authors b"
  shows "rated_projection b =
           Inr [(''title'', dict_get b ''title'' VNone), (''authors'', dict_get b ''authors'' VNone),
                (''averageRating'', dict_get b ''averageRating'' (VInt 0))]"
  using assms
  by (auto simp: has_title_authors_def rated_projection_def dict_item_def dict_get_def)

lemma fetch_branch_returns:
  assumes "fetch_books cat subject 10 = Inr fetched"
  shows "\<exists>r s. fetch_branch cat subject state = Inr (r, s)"
proof -
  have "list_all has_title_authors fetched"
    using assms by (rule fetch_books_has_title_authors)
  then have "mapM rated_projection fetched =
      Inr (map (\<lambda>b. [(''title'', dict_get b ''title'' VNone), (''authors'', dict_get b ''authors'' VNone),
                       (''averageRating'', dict_get b ''averageRating'' (VInt 0))]) fetched)"
    by (intro mapM_total) (simp add: list_all_iff rated_projection_ok)
  with assms show ?thesis by (simp add: fetch_branch_def)
qed

lemma catalog_answers_fetch:
  assumes "catalog_answers cat subject"
  shows "\<exists>r s. fetch_branch cat subject state = Inr (r, s)"
proof -
  from assms obtain body items where
    b: "cat (''subject:'' @ subject) 10 = Inr body" and i: "response_items body = Some items"
    by (auto simp: catalog_answers_def split: sum.splits)
  from b i fetch_branch_items [of cat subject body items state] show ?thesis by blast
qed

text \<open>
  C3 (amended). For every plan element that is a mapping whose task is a string, whatever
  its wording, the dispatcher returns normally, provided that the stored books carry a
  title, authors and a rating that is an int, a bool or a finite float (or none), that
  the first five stored filtered books carry a title, and that, when the step is a FETCH,
  the catalog answers the request with a JSON object whose items, if any, are objects
  whose \<^verbatim>\<open>volumeInfo\<close> and \<^verbatim>\<open>searchInfo\<close>, when present, are objects.
\<close>

theorem C3_well_formed_step_returns:
  assumes "map_of d ''task'' = Some (VStr t)"
    and "records_ok state"
    and "spec_classify (lower t) = FETCH \<Longrightarrow> catalog_answers cat (subject_of state)"
  shows "\<exists>r s. dynamic_tool_agent builtin cat (VDict d) state = Inr (r, s)"
proof (cases "spec_classify (lower t)")
  case FETCH
  with assms(3) have "catalog_answers cat (subject_of state)" by simp
  then show ?thesis
    using dispatch_fetch [where builtin = builtin and cat = cat and state = state, OF assms(1) FETCH]
      catalog_answers_fetch [of cat "subject_of state" state]
    by simp
next
  case FILTER
  have "list_all (\<lambda>b. has_title_authors b \<and> numeric_rating b) (stored_books state)"
    using assms(2) by (simp add: records_ok_def)
  then show ?thesis
    using dispatch_filter [where builtin = builtin and cat = cat and state = state, OF assms(1) FILTER]
      filter_branch_ok by simp
next
  case PRESENT
  have "list_all (\<lambda>b. map_of b ''title'' \<noteq> None) (take 5 (stored_filtered state))"
    using assms(2) by (simp add: records_ok_def)
  then show ?thesis
    using dispatch_present [where builtin = builtin and cat = cat and state = state, OF assms(1) PRESENT]
      present_branch_ok by simp
next
  case NOOP
  then show ?thesis
    using dispatch_noop [where builtin = builtin and cat = cat and state = state, OF assms(1) NOOP]
    by simp
qed

theorem C3_witness:
  "map_of [(''task'', VStr ''Search the catalog'')] ''task'' = Some (VStr ''Search the catalog'') \<and>
   records_ok (initial_state ''a fantasy book'') \<and>
   spec_classify (lower ''Search the catalog'') = FETCH \<and>
   catalog_answers (catalog_of two_item_body) (subject_of (initial_state ''a fantasy book'')) \<and>
   (\<exists>r s. dynamic_tool_agent no_sorter (catalog_of two_item_body)
             (VDict [(''task'', VStr ''Search the catalog'')])
             (initial_state ''a fantasy book'') = Inr (r, s))"
proof -
  have h1: "map_of [(''task'', VStr ''Search the catalog'')] ''task'' = Some (VStr ''Search the catalog'')"
    by simp
  have h2: "records_ok (initial_state ''a fantasy book'')"
    by code_simp
  have h3: "spec_classify (lower ''Search the catalog'') = FETCH"
    by code_simp
  have h4: "catalog_answers (catalog_of two_item_body) (subject_of (initial_state ''a fantasy book''))"
    by code_simp
  show ?thesis
    using h1 h2 h3 h4
      C3_well_formed_step_returns
        [where builtin = no_sorter and cat = "catalog_of two_item_body"
            and state = "initial_state ''a fantasy book''",
         OF h1 h2 h4]
    by blast
qed

text \<open>C3 as stated covers every plan element and every state. A mapping without the task
  field raises \<^verbatim>\<open>KeyError\<close>, a bare string \<^verbatim>\<open>TypeError\<close>, and a task that is a
  number \<^verbatim>\<open>AttributeError\<close>; and a well-formed step raises when the response's
  \<^verbatim>\<open>volumeInfo\<close> is \<^verbatim>\<open>null\<close> (FETCH) or when a stored rating is \<^verbatim>\<open>None\<close> beside a
  number (FILTER).\<close>

theorem C3_counterexample:
  "dynamic_tool_agent no_sorter (catalog_of two_item_body) (VDict [(''step'', VStr ''Query the catalog'')])
     (initial_state ''a fantasy book'') = Inl KeyError \<and>
   dynamic_tool_agent no_sorter (catalog_of two_item_body) (VStr ''Query the catalog'')
     (initial_state ''a fantasy book'') = Inl TypeError \<and>
   dynamic_tool_agent no_sorter (catalog_of two_item_body) (VDict [(''task'', VInt 1)])
     (initial_state ''a fantasy book'') = Inl AttributeError \<and>
   dynamic_tool_agent no_sorter (catalog_of bad_body) (VDict [(''task'', VStr ''Query the catalog'')])
     (initial_state ''a fantasy book'') = Inl AttributeError \<and>
   dynamic_tool_agent no_sorter (catalog_of two_item_body) (VDict [(''task'', VStr ''Filter by rating'')])
     null_rated_state = Inl TypeError"
  by code_simp

section \<open>Plan Generator\<close>

lemma plan_agent_reply:
  assumes "model (plan_prompt query) = Inr reply"
  shows "plan_agent (Some model) literal_eval query = deserialize_list literal_eval (plan_text reply)"
  using assms by (simp add: plan_agent_def deserialize_list_def)

lemma deserialize_list_Inr_iff:
  "deserialize_list literal_eval text = Inr p \<longleftrightarrow> literal_eval text = Inr (VList p)"
  by (auto simp: deserialize_list_def split: sum.splits pyval.splits)

lemma plan_text_no_match:
  "bracket_match (strip reply) = None \<Longrightarrow> plan_text reply = strip reply"
  by (simp add: plan_text_def)

lemma literal_table_find_books: "lists_in_brackets (literal_table find_books_table)"
  unfolding lists_in_brackets_def
proof (intro allI impI)
  fix s p
  assume "literal_table find_books_table s = Inr (VList p)"
  then have "s = ''[{'task': 'Find books'}]''"
    by (auto simp: literal_table_def find_books_table_def split: if_splits)
  moreover have "bracket_match ''[{'task': 'Find books'}]'' \<noteq> None"
    by code_simp
  ultimately show "bracket_match s \<noteq> None" by simp
qed

lemma bracket_match_span:
  assumes "CHR ''['' \<notin> set pre" and "CHR '']'' \<notin> set post"
  shows "bracket_match (pre @ CHR ''['' # mid @ CHR '']'' # post) = Some (CHR ''['' # mid @ '']'')"
proof -
  have a: "dropWhile (\<lambda>c. c \<noteq> CHR ''['') (pre @ CHR ''['' # mid @ CHR '']'' # post)
             = CHR ''['' # mid @ CHR '']'' # post"
    using assms(1) by (subst dropWhile_append2) auto
  have b: "dropWhile (\<lambda>c. c \<noteq> CHR '']'') (rev post @ CHR '']'' # rev mid) = CHR '']'' # rev mid"
    using assms(2) by (auto simp: dropWhile_append)
  show ?thesis
    by (simp add: bracket_match_def a b)
qed

lemma strip_around_brackets:
  "\<exists>pre' post'. strip (pre @ CHR ''['' # mid @ CHR '']'' # post) = pre' @ CHR ''['' # mid @ CHR '']'' # post'
       \<and> set pre' \<subseteq> set pre \<and> set post' \<subseteq> set post"
proof -
  have nb: "\<not> is_space_char (CHR ''['')" and nc: "\<not> is_space_char (CHR '']'')"
    by (simp_all add: is_space_char_def)
  have a: "dropWhile is_space_char (pre @ CHR ''['' # mid @ CHR '']'' # post)
             = dropWhile is_space_char pre @ CHR ''['' # mid @ CHR '']'' # post"
    using nb by (simp add: dropWhile_append)
  have b: "dropWhile is_space_char (rev post @ CHR '']'' # rev mid @ CHR ''['' # rev (dropWhile is_space_char pre))
             = dropWhile is_space_char (rev post) @ CHR '']'' # rev mid @ CHR ''['' # rev (dropWhile is_space_char pre)"
    using nc by (auto simp: dropWhile_append)
  have "strip (pre @ CHR ''['' # mid @ CHR '']'' # post)
          = dropWhile is_space_char pre @ CHR ''['' # mid @ CHR '']'' # rev (dropWhile is_space_char (rev post))"
    by (simp add: strip_def a b)
  moreover have "set (dropWhile is_space_char pre) \<subseteq> set pre"
    by (auto dest: set_dropWhileD)
  moreover have "set (rev (dropWhile is_space_char (rev post))) \<subseteq> set post"
    by (auto dest: set_dropWhileD)
  ultimately show ?thesis by blast
qed

lemma plan_text_span:
  assumes "reply = pre @ CHR ''['' # mid @ CHR '']'' # post"
    and "CHR ''['' \<notin> set pre" and "CHR '']'' \<notin> set post"
  shows "plan_text reply = CHR ''['' # mid @ '']''"
proof -
  from strip_around_brackets [of pre mid post] obtain pre' post' where
    s: "strip reply = pre' @ CHR ''['' # mid @ CHR '']'' # post'"
    and "set pre' \<subseteq> set pre" and "set post' \<subseteq> set post"
    using assms(1) by blast
  with assms(2,3) have "CHR ''['' \<notin> set pre'" and "CHR '']'' \<notin> set post'" by auto
  then have "bracket_match (strip reply) = Some (CHR ''['' # mid @ '']'')"
    unfolding s by (rule bracket_match_span)
  then show ?thesis by (simp add: plan_text_def)
qed

text \<open>
  C7. For every model reply: \<^verbatim>\<open>plan_agent\<close> returns a plan exactly when the text it
  extracted deserializes to a list, and then the plan is that list (so it raises whenever
  the text does not deserialize to a list); and when the reply holds no bracketed
  substring it raises, and in particular does not return the empty plan. The last part
  uses that \<^verbatim>\<open>ast.literal_eval\<close> yields a list only for a text with a list display.
\<close>

theorem C7_unparsable_reply_raises:
  assumes "model (plan_prompt query) = Inr reply"
    and "lists_in_brackets literal_eval"
  shows "(plan_agent (Some model) literal_eval query = Inr p
            \<longleftrightarrow> literal_eval (plan_text reply) = Inr (VList p)) \<and>
         (bracket_match (strip reply) = None \<longrightarrow>
            isl (plan_agent (Some model) literal_eval query) \<and>
            plan_agent (Some model) literal_eval query \<noteq> Inr [])"
proof -
  have eq: "plan_agent (Some model) literal_eval query = deserialize_list literal_eval (plan_text reply)"
    using assms(1) by (rule plan_agent_reply)
  have first: "plan_agent (Some model) literal_eval query = Inr p
                 \<longleftrightarrow> literal_eval (plan_text reply) = Inr (VList p)"
    by (simp add: eq deserialize_list_Inr_iff)
  have second: "isl (plan_agent (Some model) literal_eval query) \<and>
                plan_agent (Some model) literal_eval query \<noteq> Inr []"
    if none: "bracket_match (strip reply) = None"
  proof -
    have "literal_eval (strip reply) \<noteq> Inr (VList q)" for q
      using assms(2) none by (auto simp: lists_in_brackets_def)
    then have "deserialize_list literal_eval (strip reply) \<noteq> Inr q" for q
      by (simp add: deserialize_list_Inr_iff)
    then have "isl (deserialize_list literal_eval (strip reply))"
      by (cases "deserialize_list literal_eval (strip reply)") auto
    then show ?thesis
      by (auto simp: eq plan_text_no_match [OF none])
  qed
  from first second show ?thesis by blast
qed

text \<open>A refusal without any bracket raises \<^verbatim>\<open>SyntaxError\<close>.\<close>

theorem C7_witness:
  "bracket_match (strip refusal_reply) = None \<and>
   plan_agent (llm_of refusal_reply) (literal_table find_books_table) ''a book'' = Inl SyntaxError \<and>
   isl (plan_agent (llm_of refusal_reply) (literal_table find_books_table) ''a book'')"
proof -
  have h1: "(\<lambda>prompt. Inr refusal_reply :: error + string) (plan_prompt ''a book'') = Inr refusal_reply"
    by simp
  have h2: "bracket_match (strip refusal_reply) = None"
    by code_simp
  have h3: "plan_agent (llm_of refusal_reply) (literal_table find_books_table) ''a book'' = Inl SyntaxError"
    by code_simp
  have "isl (plan_agent (llm_of refusal_reply) (literal_table find_books_table) ''a book'')"
    using h2
      C7_unparsable_reply_raises [of "\<lambda>prompt. Inr refusal_reply" "''a book''" refusal_reply
                                     "literal_table find_books_table" "[]",
                                  OF h1 literal_table_find_books]
    by (simp add: llm_of_def)
  with h2 h3 show ?thesis by simp
qed

text \<open>
  C8 (amended). For every model reply with an opening bracket and a closing bracket behind
  it, the text \<^verbatim>\<open>plan_agent\<close> deserializes runs from the first opening bracket to the
  last closing bracket of the reply.
\<close>

theorem C8_extracts_first_bracket_to_last:
  assumes "model (plan_prompt query) = Inr reply"
    and "reply = pre @ CHR ''['' # mid @ CHR '']'' # post"
    and "CHR ''['' \<notin> set pre" and "CHR '']'' \<notin> set post"
  shows "plan_text reply = CHR ''['' # mid @ '']'' \<and>
         plan_agent (Some model) literal_eval query
           = deserialize_list literal_eval (CHR ''['' # mid @ '']'')"
  using assms(1) plan_agent_reply [of model query reply literal_eval]
    plan_text_span [OF assms(2,3,4)]
  by simp

text \<open>The reply of the counterexample below, split at its first opening and its last
  closing bracket.\<close>

theorem C8_witness:
  "commented_reply = [] @ CHR ''['' # ''{'task': 'Find books'}] Note: run step [1'' @ CHR '']'' # '' first.'' \<and>
   CHR ''['' \<notin> set [] \<and> CHR '']'' \<notin> set '' first.'' \<and>
   plan_text commented_reply = ''[{'task': 'Find books'}] Note: run step [1]'' \<and>
   plan_agent (llm_of commented_reply) (literal_table find_books_table) ''a book''
     = deserialize_list (literal_table find_books_table) ''[{'task': 'Find books'}] Note: run step [1]''"
proof -
  have h1: "(\<lambda>prompt. Inr commented_reply :: error + string) (plan_prompt ''a book'') = Inr commented_reply"
    by simp
  have h2: "commented_reply = [] @ CHR ''['' # ''{'task': 'Find books'}] Note: run step [1'' @ CHR '']'' # '' first.''"
    by (simp add: commented_reply_def)
  have h3: "CHR ''['' \<notin> set []"
    by simp
  have h4: "CHR '']'' \<notin> set '' first.''"
    by simp
  show ?thesis
    using h2 h3 h4
      C8_extracts_first_bracket_to_last
        [of "\<lambda>prompt. Inr commented_reply" "''a book''" commented_reply "[]"
            "''{'task': 'Find books'}] Note: run step [1''" "'' first.''"
            "literal_table find_books_table",
         OF h1 h2 h3 h4]
    by (simp add: llm_of_def)
qed

text \<open>C8 as stated takes the shortest bracketed substring. For a well-formed list
  followed by commentary with a later closing bracket, that substring deserializes to
  the list, while the text the code extracts includes the commentary and is a syntax
  error.\<close>

theorem C8_counterexample:
  "spec_first_bracketed (strip commented_reply) = Some ''[{'task': 'Find books'}]'' \<and>
   deserialize_list (literal_table find_books_table) ''[{'task': 'Find books'}]''
     = Inr [VDict [(''task'', VStr ''Find books'')]] \<and>
   plan_text commented_reply = ''[{'task': 'Find books'}] Note: run step [1]'' \<and>
   plan_agent (llm_of commented_reply) (literal_table find_books_table) ''a book'' = Inl SyntaxError"
  by code_simp

section \<open>End to end: an empty catalog\<close>

text \<open>
  C10. When the catalog returns zero items and the plan drives FETCH, FILTER and PRESENT
  in sequence, the claim has the UI shell show the "no recommendations" notice. The
  PRESENT step stores the empty list under \<^verbatim>\<open>presentation\<close>, the key is there, and
  the shell writes that empty list instead.
\<close>

theorem C10_empty_catalog_shows_empty_presentation:
  "response_items empty_body = Some [] \<and>
   plan_agent (llm_of three_step_reply) (literal_table three_step_table)
     ''Suggest the best science fiction book'' = Inr three_step_plan \<and>
   map spec_classify (map lower [''Query a book database for science fiction books.'',
        ''Filter the results to identify books with high ratings.'',
        ''Present the best book as the suggestion.'']) = [FETCH, FILTER, PRESENT] \<and>
   map_option output_panel
     (final_state (invoke (llm_of three_step_reply) (literal_table three_step_table) no_sorter
                     (catalog_of empty_body) (initial_state ''Suggest the best science fiction book'')))
     = Some (Shows [])"
  by code_simp

section \<open>Plan Runner\<close>

lemma tool_node_at_end:
  assumes "plan state = Some p" and "current_step state = Some i" and "int (length p) \<le> i"
  shows "tool_node builtin cat state = (0, Inr (state\<lparr>is_done := Some True\<rparr>))"
  using assms by (simp add: tool_node_def)

lemma tool_node_dispatch:
  assumes "plan state = Some p" and "current_step state = Some i"
    and "0 \<le> i" and "i < int (length p)"
  shows "tool_node builtin cat state =
           (1, case dynamic_tool_agent builtin cat (p ! nat i) state of
                 Inl e \<Rightarrow> Inl e
               | Inr (r, updated_state) \<Rightarrow>
                   Inr (updated_state\<lparr>current_step := Some (i + 1),
                                      is_done := Some (i + 1 \<ge> int (length p))\<rparr>))"
  using assms by (simp add: tool_node_def list_item_def)

lemma run_from_end:
  assumes "plan state = Some p" and "current_step state = Some (int (length p))"
  shows "run_from p (int (length p)) state
           (0, [state\<lparr>is_done := Some True\<rparr>], Inr (state\<lparr>is_done := Some True\<rparr>))"
  using assms
  by (simp add: run_from_def dispatches_def trace_def outcome_def step_index_def)

lemma run_from_raise:
  assumes "i < int (length p)"
  shows "run_from p i state (1, [], Inl e)"
  using assms
  by (simp add: run_from_def dispatches_def trace_def outcome_def)

lemma run_from_last:
  assumes "plan s = Some p" and "current_step s = Some (int (length p))"
    and "is_done s = Some True" and "current_step state = Some i" and "i + 1 = int (length p)"
  shows "run_from p i state (1, [s], Inr s)"
  using assms
  by (simp add: run_from_def dispatches_def trace_def outcome_def step_index_def)

lemma run_from_step:
  assumes rest: "run_from p (i + 1) s (m, tr, out)"
    and s: "plan s = Some p" "current_step s = Some (i + 1)" "is_done s = Some False"
    and i: "current_step state = Some i" "i + 1 < int (length p)"
  shows "run_from p i state (1 + m, s # tr, out)"
proof -
  have tr: "list_all (\<lambda>st. plan st = Some p \<and>
                     (case current_step st of
                        None \<Rightarrow> False
                      | Some j \<Rightarrow> i \<le> j \<and> j \<le> int (length p) \<and>
                                  is_done st = Some (j = int (length p)))) tr"
    using rest by (auto simp: run_from_def trace_def list_all_iff split: option.splits)
  have bl: "list_all (\<lambda>st. is_done st \<noteq> Some True) (butlast (s # tr))"
    using rest s by (simp add: run_from_def trace_def)
  have "sorted (map step_index (s # tr))"
    using rest by (simp add: run_from_def trace_def)
  moreover have "step_index state \<le> step_index s"
    using s i by (simp add: step_index_def)
  ultimately have so: "sorted (map step_index (state # s # tr))"
    by (simp only: list.map sorted2)
  have oc: "(case out of
        Inl e \<Rightarrow> 1 \<le> 1 + m
      | Inr sf \<Rightarrow> int (1 + m) = int (length p) - i \<and> s # tr \<noteq> [] \<and>
                 last (s # tr) = sf \<and> is_done sf = Some True \<and>
                 current_step sf = Some (int (length p)))"
    using rest by (auto simp: run_from_def trace_def outcome_def dispatches_def split: sum.splits)
  have n: "int (1 + m) \<le> int (length p) - i"
    using rest by (simp add: run_from_def dispatches_def)
  show ?thesis
    unfolding run_from_def dispatches_def trace_def outcome_def
    using tr bl so oc n s i by (cases out) simp_all
qed

lemma executor_loop_run_from:
  assumes "plan state = Some p" and "current_step state = Some i"
    and "0 \<le> i" and "i \<le> int (length p)"
  shows "run_from p i state (executor_loop builtin cat state)"
  using assms
proof (induction builtin cat state arbitrary: i rule: executor_loop.induct)
  case (1 builtin cat state)
  show ?case
  proof (cases "i = int (length p)")
    case True
    then have "tool_node builtin cat state = (0, Inr (state\<lparr>is_done := Some True\<rparr>))"
      using "1.prems" by (simp add: tool_node_at_end)
    then have "executor_loop builtin cat state =
                 (0, [state\<lparr>is_done := Some True\<rparr>], Inr (state\<lparr>is_done := Some True\<rparr>))"
      by (subst executor_loop.simps) simp
    then show ?thesis
      using run_from_end [of state p] "1.prems" True by simp
  next
    case False
    then have lt: "i < int (length p)" using "1.prems" by simp
    have tn: "tool_node builtin cat state =
           (1, case dynamic_tool_agent builtin cat (p ! nat i) state of
                 Inl e \<Rightarrow> Inl e
               | Inr (r, updated_state) \<Rightarrow>
                   Inr (updated_state\<lparr>current_step := Some (i + 1),
                                      is_done := Some (i + 1 \<ge> int (length p))\<rparr>))"
      using "1.prems" lt by (simp add: tool_node_dispatch)
    show ?thesis
    proof (cases "dynamic_tool_agent builtin cat (p ! nat i) state")
      case (Inl e)
      then have "executor_loop builtin cat state = (1, [], Inl e)"
        using tn by (subst executor_loop.simps) simp
      then show ?thesis using run_from_raise [OF lt] by simp
    next
      case (Inr res)
      obtain r u where res: "res = (r, u)" by (cases res)
      define s where "s = u\<lparr>current_step := Some (i + 1), is_done := Some (i + 1 \<ge> int (length p))\<rparr>"
      have tn': "tool_node builtin cat state = (1, Inr s)"
        using tn Inr res by (simp add: s_def)
      have pl: "plan s = Some p"
        using dynamic_tool_agent_plan [of builtin cat "p ! nat i" state r u] Inr res "1.prems"
        by (simp add: s_def)
      have cs: "current_step s = Some (i + 1)" by (simp add: s_def)
      show ?thesis
      proof (cases "i + 1 = int (length p)")
        case True
        then have dn: "is_done s = Some True" by (simp add: s_def)
        then have "executor_loop builtin cat state = (1, [s], Inr s)"
          using tn' by (subst executor_loop.simps) simp
        then show ?thesis
          using run_from_last [of s p state i] pl cs dn True "1.prems" by simp
      next
        case False
        then have lt': "i + 1 < int (length p)" using lt by simp
        then have dn: "is_done s = Some False" by (simp add: s_def)
        obtain m tr out where rest: "executor_loop builtin cat s = (m, tr, out)"
          by (cases "executor_loop builtin cat s") auto
        have "run_from p (i + 1) s (executor_loop builtin cat s)"
          using "1.IH" [of 1 "Inr s" s "i + 1"] tn' dn pl cs lt' "1.prems"
          by simp
        then have "run_from p i state (1 + m, s # tr, out)"
          using run_from_step [of p i s m tr out state] rest pl cs dn lt' "1.prems" by simp
        moreover have "executor_loop builtin cat state = (1 + m, s # tr, out)"
          using tn' dn rest by (subst executor_loop.simps) simp
        ultimately show ?thesis by simp
      qed
    qed
  qed
qed


lemma raised_by_step:
  assumes "raised_by builtin cat p (i + 1) s (m, tr, out)"
  shows "raised_by builtin cat p i state (1 + m, s # tr, out)"
proof (cases out)
  case (Inl e)
  have idx: "i + int (length (s # tr)) = i + 1 + int (length tr)" by simp
  have lst: "last (state # s # tr) = last (s # tr)" by simp
  from assms Inl have m: "m = length tr + 1"
    and d: "dynamic_tool_agent builtin cat (p ! nat (i + 1 + int (length tr))) (last (s # tr)) = Inl e"
    by (simp_all add: raised_by_def dispatches_def trace_def outcome_def del: last.simps)
  have "dynamic_tool_agent builtin cat (p ! nat (i + int (length (s # tr)))) (last (state # s # tr)) = Inl e"
    unfolding idx lst by (rule d)
  moreover have "1 + m = length (s # tr) + 1" using m by simp
  ultimately show ?thesis
    using Inl
    by (simp add: raised_by_def dispatches_def trace_def outcome_def
             del: last.simps list.size of_nat_Suc)
next
  case (Inr sf)
  then show ?thesis by (simp add: raised_by_def outcome_def)
qed

lemma executor_loop_raised_by:
  assumes "plan state = Some p" and "current_step state = Some i"
    and "0 \<le> i" and "i \<le> int (length p)"
  shows "raised_by builtin cat p i state (executor_loop builtin cat state)"
  using assms
proof (induction builtin cat state arbitrary: i rule: executor_loop.induct)
  case (1 builtin cat state)
  show ?case
  proof (cases "i = int (length p)")
    case True
    then have "tool_node builtin cat state = (0, Inr (state\<lparr>is_done := Some True\<rparr>))"
      using "1.prems" by (simp add: tool_node_at_end)
    then have "executor_loop builtin cat state =
                 (0, [state\<lparr>is_done := Some True\<rparr>], Inr (state\<lparr>is_done := Some True\<rparr>))"
      by (subst executor_loop.simps) simp
    then show ?thesis by (simp add: raised_by_def outcome_def)
  next
    case False
    then have lt: "i < int (length p)" using "1.prems" by simp
    have tn: "tool_node builtin cat state =
           (1, case dynamic_tool_agent builtin cat (p ! nat i) state of
                 Inl e \<Rightarrow> Inl e
               | Inr (r, updated_state) \<Rightarrow>
                   Inr (updated_state\<lparr>current_step := Some (i + 1),
                                      is_done := Some (i + 1 \<ge> int (length p))\<rparr>))"
      using "1.prems" lt by (simp add: tool_node_dispatch)
    show ?thesis
    proof (cases "dynamic_tool_agent builtin cat (p ! nat i) state")
      case (Inl e)
      then have "executor_loop builtin cat state = (1, [], Inl e)"
        using tn by (subst executor_loop.simps) simp
      then show ?thesis
        using Inl by (simp add: raised_by_def outcome_def dispatches_def trace_def)
    next
      case (Inr res)
      obtain r u where res: "res = (r, u)" by (cases res)
      define s where "s = u\<lparr>current_step := Some (i + 1), is_done := Some (i + 1 \<ge> int (length p))\<rparr>"
      have tn': "tool_node builtin cat state = (1, Inr s)"
        using tn Inr res by (simp add: s_def)
      have pl: "plan s = Some p"
        using dynamic_tool_agent_plan [of builtin cat "p ! nat i" state r u] Inr res "1.prems"
        by (simp add: s_def)
      have cs: "current_step s = Some (i + 1)" by (simp add: s_def)
      show ?thesis
      proof (cases "i + 1 = int (length p)")
        case True
        then have dn: "is_done s = Some True" by (simp add: s_def)
        then have "executor_loop builtin cat state = (1, [s], Inr s)"
          using tn' by (subst executor_loop.simps) simp
        then show ?thesis by (simp add: raised_by_def outcome_def)
      next
        case False
        then have lt': "i + 1 < int (length p)" using lt by simp
        then have dn: "is_done s = Some False" by (simp add: s_def)
        obtain m tr out where rest: "executor_loop builtin cat s = (m, tr, out)"
          by (cases "executor_loop builtin cat s") auto
        have "raised_by builtin cat p (i + 1) s (executor_loop builtin cat s)"
          using "1.IH" [of 1 "Inr s" s "i + 1"] tn' dn pl cs lt' "1.prems"
          by simp
        then have "raised_by builtin cat p i state (1 + m, s # tr, out)"
          using raised_by_step [of builtin cat p i s m tr out state] rest by simp
        moreover have "executor_loop builtin cat state = (1 + m, s # tr, out)"
          using tn' dn rest by (subst executor_loop.simps) simp
        ultimately show ?thesis by simp
      qed
    qed
  qed
qed

lemma invoke_planned:
  assumes "plan_agent llm1 literal_eval (case user_query st0 of None \<Rightarrow> [] | Some q \<Rightarrow> q) = Inr p"
  shows "invoke llm1 literal_eval builtin cat st0 =
           executor_loop builtin cat (st0\<lparr>plan := Some p, current_step := Some 0, is_done := Some False\<rparr>)"
  using assms by (simp add: invoke_def plan_node_def)

text \<open>
  C1 (amended). For every plan the Plan Generator returns, the run (the planner node, then
  the executor node until the done flag is seen) makes at most \<open>length p\<close> calls of the
  dispatcher and ends in one of two ways: with the exception its last dispatcher call
  raised (the call on the plan's element at the step of the last state reached), or in a
  final state with the done flag set, reached after exactly \<open>length p\<close> calls (none for
  the empty plan). In every state the executor returns, the step index lies between 0
  and \<open>length p\<close> and the done flag is set exactly when the index equals \<open>length p\<close>;
  the indices never decrease along the run, and no state before the last has the flag
  set.
\<close>

theorem C1_runner_dispatches_each_step_once:
  assumes "plan_agent llm1 literal_eval (case user_query st0 of None \<Rightarrow> [] | Some q \<Rightarrow> q) = Inr p"
  shows "let run = invoke llm1 literal_eval builtin cat st0 in
           dispatches run \<le> length p \<and>
           (case outcome run of
              Inl e \<Rightarrow> 1 \<le> dispatches run \<and>
                       dispatches run = length (trace run) + 1 \<and>
                       dynamic_tool_agent builtin cat (p ! length (trace run))
                         (last (st0\<lparr>plan := Some p, current_step := Some 0, is_done := Some False\<rparr>
                                # trace run)) = Inl e
            | Inr sf \<Rightarrow> dispatches run = length p \<and> last (trace run) = sf \<and>
                       is_done sf = Some True \<and> current_step sf = Some (int (length p))) \<and>
           list_all (\<lambda>st. case current_step st of
                             None \<Rightarrow> False
                           | Some j \<Rightarrow> 0 \<le> j \<and> j \<le> int (length p) \<and>
                                       is_done st = Some (j = int (length p)))
                    (trace run) \<and>
           sorted (map step_index (trace run)) \<and>
           list_all (\<lambda>st. is_done st \<noteq> Some True) (butlast (trace run))"
proof -
  define s1 where "s1 = st0\<lparr>plan := Some p, current_step := Some 0, is_done := Some False\<rparr>"
  define run where "run = invoke llm1 literal_eval builtin cat st0"
  have run: "run = executor_loop builtin cat s1"
    using invoke_planned [OF assms] by (simp add: run_def s1_def)
  moreover have "run_from p 0 s1 (executor_loop builtin cat s1)"
    by (rule executor_loop_run_from) (simp_all add: s1_def)
  ultimately have rf: "run_from p 0 s1 run" by simp
  have "raised_by builtin cat p 0 s1 (executor_loop builtin cat s1)"
    by (rule executor_loop_raised_by) (simp_all add: s1_def)
  then have rb: "raised_by builtin cat p 0 s1 run" using run by simp
  have a: "dispatches run \<le> length p"
    using rf by (simp add: run_from_def)
  have b: "(case outcome run of
              Inl e \<Rightarrow> 1 \<le> dispatches run \<and>
                       dispatches run = length (trace run) + 1 \<and>
                       dynamic_tool_agent builtin cat (p ! length (trace run))
                         (last (s1 # trace run)) = Inl e
            | Inr sf \<Rightarrow> dispatches run = length p \<and> last (trace run) = sf \<and>
                       is_done sf = Some True \<and> current_step sf = Some (int (length p)))"
    using rf rb by (cases "outcome run") (simp_all add: run_from_def raised_by_def)
  have c: "list_all (\<lambda>st. case current_step st of
                             None \<Rightarrow> False
                           | Some j \<Rightarrow> 0 \<le> j \<and> j \<le> int (length p) \<and>
                                       is_done st = Some (j = int (length p)))
                    (trace run)"
    using rf by (auto simp: run_from_def list_all_iff split: option.splits)
  have d: "sorted (map step_index (trace run))"
    using rf by (simp add: run_from_def)
  have e: "list_all (\<lambda>st. is_done st \<noteq> Some True) (butlast (trace run))"
    using rf by (simp add: run_from_def)
  from a b c d e show ?thesis
    unfolding Let_def run_def s1_def by blast
qed

text \<open>The three-step plan of the prompt's example on a catalog of two items: three
  calls, step indices 1, 2, 3, the flag set in the third state only.\<close>

theorem C1_witness:
  "plan_agent (llm_of three_step_reply) (literal_table three_step_table)
     (case user_query (initial_state ''Suggest the best science fiction book'') of
        None \<Rightarrow> [] | Some q \<Rightarrow> q) = Inr three_step_plan \<and>
   dispatches (invoke (llm_of three_step_reply) (literal_table three_step_table) no_sorter
                 (catalog_of two_item_body) (initial_state ''Suggest the best science fiction book''))
     \<le> length three_step_plan \<and>
   dispatches (invoke (llm_of three_step_reply) (literal_table three_step_table) no_sorter
                 (catalog_of two_item_body) (initial_state ''Suggest the best science fiction book''))
     = 3 \<and>
   map step_index (trace (invoke (llm_of three_step_reply) (literal_table three_step_table) no_sorter
                 (catalog_of two_item_body) (initial_state ''Suggest the best science fiction book'')))
     = [1, 2, 3] \<and>
   map is_done (trace (invoke (llm_of three_step_reply) (literal_table three_step_table) no_sorter
                 (catalog_of two_item_body) (initial_state ''Suggest the best science fiction book'')))
     = [Some False, Some False, Some True]"
proof -
  have h: "plan_agent (llm_of three_step_reply) (literal_table three_step_table)
     (case user_query (initial_state ''Suggest the best science fiction book'') of
        None \<Rightarrow> [] | Some q \<Rightarrow> q) = Inr three_step_plan"
    by code_simp
  have a: "dispatches (invoke (llm_of three_step_reply) (literal_table three_step_table) no_sorter
                 (catalog_of two_item_body) (initial_state ''Suggest the best science fiction book''))
     \<le> length three_step_plan"
    using C1_runner_dispatches_each_step_once
      [where builtin = no_sorter and cat = "catalog_of two_item_body", OF h]
    by (simp add: Let_def)
  have b: "dispatches (invoke (llm_of three_step_reply) (literal_table three_step_table) no_sorter
                 (catalog_of two_item_body) (initial_state ''Suggest the best science fiction book''))
     = 3"
    by code_simp
  have c: "map step_index (trace (invoke (llm_of three_step_reply) (literal_table three_step_table) no_sorter
                 (catalog_of two_item_body) (initial_state ''Suggest the best science fiction book'')))
     = [1, 2, 3]"
    by code_simp
  have d: "map is_done (trace (invoke (llm_of three_step_reply) (literal_table three_step_table) no_sorter
                 (catalog_of two_item_body) (initial_state ''Suggest the best science fiction book'')))
     = [Some False, Some False, Some True]"
    by code_simp
  from h a b c d show ?thesis by blast
qed

text \<open>C1 as stated holds of every plan. A plan whose element is a bare string ends the
  run with \<^verbatim>\<open>TypeError\<close> in the first call, and a well-formed FETCH step ends it with
  the exception of the catalog request; neither run reaches a done state. For the empty
  plan, the state the planner returns has the step index at the plan length with the flag
  still unset.\<close>

theorem C1_counterexample:
  "plan_agent (llm_of ''['Find books']'') (literal_table plan_tables)
     ''Suggest the best science fiction book'' = Inr [VStr ''Find books''] \<and>
   invoke (llm_of ''['Find books']'') (literal_table plan_tables) no_sorter (catalog_of two_item_body)
     (initial_state ''Suggest the best science fiction book'') = (1, [], Inl TypeError) \<and>
   plan_agent (llm_of ''[{'task': 'Find books'}]'') (literal_table plan_tables)
     ''Suggest the best science fiction book'' = Inr [VDict [(''task'', VStr ''Find books'')]] \<and>
   invoke (llm_of ''[{'task': 'Find books'}]'') (literal_table plan_tables) no_sorter failing_catalog
     (initial_state ''Suggest the best science fiction book'') = (1, [], Inl RequestError) \<and>
   plan_node (llm_of ''[]'') (literal_table plan_tables)
     (initial_state ''Suggest the best science fiction book'')
     = Inr ((initial_state ''Suggest the best science fiction book'')
              \<lparr>plan := Some [], current_step := Some 0, is_done := Some False\<rparr>)"
  by code_simp

end
